theory Spec2Isabelle
  imports Complex_Main "HOL-Library.Multiset"
begin

section \<open>The castle-anim-frames exporter (export_castle_anim_frames.py)\<close>

text \<open>
  A shallow embedding of the operator \<^verbatim>\<open>ExportCastleAnimFrames\<close>. The floats of the
  bounding box and of the frame line are values of the type \<open>pyfloat\<close> below, Python
  integers are \<^typ>\<open>int\<close>, strings are \<^typ>\<open>string\<close>. Everything the script obtains from the host
  (\<^verbatim>\<open>bpy\<close>, \<^verbatim>\<open>bpy_extras\<close>, \<^verbatim>\<open>mathutils\<close>, the \<^verbatim>\<open>%\<close> formatting of floats) is a field of
  the record \<open>host\<close>, a parameter of every function that uses it.
\<close>

subsection \<open>Host data\<close>

text \<open>
  A Python float is a finite value, an infinity or NaN. Comparisons, \<^verbatim>\<open>min\<close> and
  \<^verbatim>\<open>max\<close> are those of Python on all values: every comparison with NaN is false,
  \<^verbatim>\<open>min(a, b)\<close> is \<^verbatim>\<open>b\<close> when \<^verbatim>\<open>b < a\<close> and else \<^verbatim>\<open>a\<close>, \<^verbatim>\<open>max(a, b)\<close> is \<^verbatim>\<open>b\<close> when
  \<^verbatim>\<open>b > a\<close> and else \<^verbatim>\<open>a\<close>. Sums and differences with an infinity or NaN are those of
  the floats (\<^verbatim>\<open>inf - inf\<close> and \<^verbatim>\<open>inf + -inf\<close> are NaN). On finite values the arithmetic is
  that of the real numbers: rounding and overflow are left out, and the two zeros of the
  floats are one value, as they are for \<^verbatim>\<open>==\<close>.
\<close>

datatype pyfloat = Fin real | PInf | NInf | NaN

fun flt :: "pyfloat \<Rightarrow> pyfloat \<Rightarrow> bool" where
  "flt (Fin a) (Fin b) = (a < b)"
| "flt (Fin a) PInf = True"
| "flt NInf (Fin b) = True"
| "flt NInf PInf = True"
| "flt _ _ = False"

fun fle :: "pyfloat \<Rightarrow> pyfloat \<Rightarrow> bool" where
  "fle (Fin a) (Fin b) = (a \<le> b)"
| "fle (Fin a) PInf = True"
| "fle NInf (Fin b) = True"
| "fle NInf PInf = True"
| "fle NInf NInf = True"
| "fle PInf PInf = True"
| "fle _ _ = False"

definition py_min :: "pyfloat \<Rightarrow> pyfloat \<Rightarrow> pyfloat" where
  "py_min a b = (if flt b a then b else a)"

definition py_max :: "pyfloat \<Rightarrow> pyfloat \<Rightarrow> pyfloat" where
  "py_max a b = (if flt a b then b else a)"

fun fadd :: "pyfloat \<Rightarrow> pyfloat \<Rightarrow> pyfloat" where
  "fadd (Fin a) (Fin b) = Fin (a + b)"
| "fadd NaN _ = NaN"
| "fadd _ NaN = NaN"
| "fadd PInf NInf = NaN"
| "fadd NInf PInf = NaN"
| "fadd PInf _ = PInf"
| "fadd NInf _ = NInf"
| "fadd (Fin a) PInf = PInf"
| "fadd (Fin a) NInf = NInf"

fun fsub :: "pyfloat \<Rightarrow> pyfloat \<Rightarrow> pyfloat" where
  "fsub (Fin a) (Fin b) = Fin (a - b)"
| "fsub NaN _ = NaN"
| "fsub _ NaN = NaN"
| "fsub PInf PInf = NaN"
| "fsub NInf NInf = NaN"
| "fsub PInf _ = PInf"
| "fsub NInf _ = NInf"
| "fsub (Fin a) PInf = NInf"
| "fsub (Fin a) NInf = PInf"

text \<open>Division by \<^verbatim>\<open>2.0\<close>.\<close>

fun fhalf :: "pyfloat \<Rightarrow> pyfloat" where
  "fhalf (Fin a) = Fin (a / 2)"
| "fhalf x = x"

type_synonym vec = "pyfloat \<times> pyfloat \<times> pyfloat"

text \<open>A 4x4 transformation matrix is modelled by the map it applies to a 3D vector;
  the product \<^verbatim>\<open>A @ B\<close> of two matrices is the composition of the maps.\<close>

type_synonym matrix = "vec \<Rightarrow> vec"

text \<open>Host objects are references: an object is identified by an \<open>oid\<close>, its attributes
  live in the store \<open>obj\<close> of the scene.\<close>

type_synonym oid = nat

record object =
  name :: string
  otype :: string
  visible :: bool
  selected :: bool
  bound_box :: "vec list"
  matrix_world :: matrix

record action =
  action_name :: string
  frame_range :: "real \<times> real"
  use_fake_user :: bool

record scene =
  scene_objects :: "oid list"
  obj :: "oid \<Rightarrow> object"
  scene_frame_start :: int
  scene_frame_end :: int
  actions :: "action list"

datatype frame_format = GLTF | X3D

text \<open>The properties of the operator (\<^verbatim>\<open>self.xxx\<close>), fixed during one run.\<close>

record operator =
  filepath :: string
  frame_skip :: int
  actions_object :: string
  make_duplicates_real :: bool
  frame_format :: frame_format
  use_selection :: bool
  use_mesh_modifiers :: bool
  use_triangulate :: bool
  use_normals :: bool
  use_hierarchy :: bool
  name_decorations :: bool
  use_h3d :: bool
  axis_forward :: string
  axis_up :: string
  path_mode :: string

text \<open>
  The operations of the host. \<open>elem_ne_minus1 f\<close> is the comparison \<^verbatim>\<open>f != -1\<close> of an
  element \<open>f\<close> of \<^verbatim>\<open>ob.bound_box\<close>, as the host's array type decides it.
  \<open>reset_material_tags\<close> stands for the loop of \<^verbatim>\<open>fix_scene_before_x3d_export\<close>, which
  only clears the \<^verbatim>\<open>tag\<close> of materials, a part of the host data that the record \<open>scene\<close>
  does not detail. The two exporters return the text of the temporary file they wrote
  (read back and removed by the script), or the message of the error they raised.
\<close>

record host =
  axis_conversion :: "string \<Rightarrow> string \<Rightarrow> matrix"
  elem_ne_minus1 :: "vec \<Rightarrow> bool"
  frame_set :: "int \<Rightarrow> scene \<Rightarrow> scene"
  select_all :: "scene \<Rightarrow> scene"
  duplicates_make_real :: "scene \<Rightarrow> scene"
  select_set :: "oid \<Rightarrow> bool \<Rightarrow> scene \<Rightarrow> scene"
  object_delete :: "scene \<Rightarrow> scene"
  user_of_id :: "scene \<Rightarrow> oid \<Rightarrow> action \<Rightarrow> bool"
  reset_material_tags :: "bool \<Rightarrow> scene \<Rightarrow> scene"
  export_scene_x3d :: "operator \<Rightarrow> scene \<Rightarrow> string + string \<times> scene"
  export_scene_gltf :: "operator \<Rightarrow> scene \<Rightarrow> string + string \<times> scene"
  format_f :: "pyfloat \<Rightarrow> string"

subsection \<open>Program state and errors\<close>

datatype error =
    Exception string
  | ExceptionCounts string nat string nat string nat
  | KeyError string
  | AttributeError string
  | ExporterError string

text \<open>
  \<open>output_file\<close> is the sequence of strings written to the container so far, one element
  for each call of \<^verbatim>\<open>output_file.write\<close>. \<open>old_objects\<close> and \<open>old_objects_len\<close> are the
  attributes that \<^verbatim>\<open>make_duplicates_real_before\<close> stores in \<^verbatim>\<open>self\<close>.
  \<open>animation_data ob\<close> is \<open>None\<close> when the object has no animation data, and else holds
  the action bound to it (\<open>None\<close> for no action); the host operations act on the scene
  only and leave it alone. \<open>action_log\<close> is a ghost field: the values assigned to
  \<^verbatim>\<open>animation_data.action\<close> by the script, in order.
\<close>

record pstate =
  scene :: scene
  output_file :: "string list"
  old_objects :: "oid list"
  old_objects_len :: nat
  animation_data :: "oid \<rightharpoonup> action option"
  action_log :: "action option list"

text \<open>An exception carries the state in which it was raised.\<close>

type_synonym result = "(error \<times> pstate) + pstate"

definition NL :: string where
  "NL = [CHR 0x0A]"

definition TAB :: string where
  "TAB = [CHR 0x09]"

definition file_write :: "string \<Rightarrow> pstate \<Rightarrow> pstate" where
  "file_write text s = s\<lparr>output_file := output_file s @ [text]\<rparr>"

subsection \<open>Bounding box\<close>

fun is_bound_box_empty :: "host \<Rightarrow> vec list \<Rightarrow> bool" where
  "is_bound_box_empty h [] = True"
| "is_bound_box_empty h (f # fs) =
     (if elem_ne_minus1 h f then False else is_bound_box_empty h fs)"

text \<open>\<^verbatim>\<open>min\<close> and \<^verbatim>\<open>max\<close> on the three coordinates, with the arguments in the order
  of the call.\<close>

definition vmin :: "vec \<Rightarrow> vec \<Rightarrow> vec" where
  "vmin a b = (py_min (fst a) (fst b), py_min (fst (snd a)) (fst (snd b)),
               py_min (snd (snd a)) (snd (snd b)))"

definition vmax :: "vec \<Rightarrow> vec \<Rightarrow> vec" where
  "vmax a b = (py_max (fst a) (fst b), py_max (fst (snd a)) (fst (snd b)),
               py_max (snd (snd a)) (snd (snd b)))"

text \<open>Lines 232 to 243: the transformed corners of one object and their minimum and
  maximum. \<open>hd\<close> reads \<^verbatim>\<open>object_box_points[0]\<close>; the caller has checked that the box
  is not empty (lemma \<open>not_empty_box_has_corner\<close>).\<close>

definition object_box :: "matrix \<Rightarrow> object \<Rightarrow> vec \<times> vec" where
  "object_box global_matrix ob =
     (let object_box_points = map (global_matrix \<circ> matrix_world ob) (bound_box ob);
          object_box_min = hd object_box_points;
          object_box_max = object_box_min
      in fold (\<lambda>v (mn, mx). (vmin v mn, vmax v mx)) object_box_points
           (object_box_min, object_box_max))"

definition excluded_types :: "string list" where
  "excluded_types = [''ARMATURE'', ''LATTICE'', ''EMPTY'', ''CAMERA'', ''LAMP'', ''SPEAKER'']"

text \<open>The body of the loop over \<^verbatim>\<open>objects\<close> (lines 226 to 256), on the triple
  \<open>(scene_box_empty, scene_box_min, scene_box_max)\<close>.\<close>

definition scene_box_step ::
  "host \<Rightarrow> matrix \<Rightarrow> scene \<Rightarrow> oid \<Rightarrow> bool \<times> vec \<times> vec \<Rightarrow> bool \<times> vec \<times> vec" where
  "scene_box_step h global_matrix sc ob acc =
     (case acc of (scene_box_empty, scene_box_min, scene_box_max) \<Rightarrow>
        if otype (obj sc ob) \<notin> set excluded_types \<and>
           \<not> is_bound_box_empty h (bound_box (obj sc ob))
        then (case object_box global_matrix (obj sc ob) of (object_box_min, object_box_max) \<Rightarrow>
                if scene_box_empty then (False, object_box_min, object_box_max)
                else (False, vmin scene_box_min object_box_min,
                             vmax scene_box_max object_box_max))
        else acc)"

definition candidate_objects :: "operator \<Rightarrow> scene \<Rightarrow> oid list" where
  "candidate_objects self sc =
     (if use_selection self
      then filter (\<lambda>ob. visible (obj sc ob) \<and> selected (obj sc ob)) (scene_objects sc)
      else filter (\<lambda>ob. visible (obj sc ob)) (scene_objects sc))"

definition get_current_bounding_box :: "host \<Rightarrow> operator \<Rightarrow> scene \<Rightarrow> vec \<times> vec" where
  "get_current_bounding_box h self sc =
     (let objects = candidate_objects self sc;
          global_matrix = axis_conversion h (axis_forward self) (axis_up self)
      in case fold (scene_box_step h global_matrix sc) objects
                (True, (Fin 0, Fin 0, Fin 0), (Fin 0, Fin 0, Fin 0)) of
           (scene_box_empty, scene_box_min, scene_box_max) \<Rightarrow>
             if scene_box_empty
             then ((Fin 0, Fin 0, Fin 0), (Fin (-1), Fin (-1), Fin (-1)))
             else ((fhalf (fadd (fst scene_box_min) (fst scene_box_max)),
                    fhalf (fadd (fst (snd scene_box_min)) (fst (snd scene_box_max))),
                    fhalf (fadd (snd (snd scene_box_min)) (snd (snd scene_box_max)))),
                   (fsub (fst scene_box_max) (fst scene_box_min),
                    fsub (fst (snd scene_box_max)) (fst (snd scene_box_min)),
                    fsub (snd (snd scene_box_max)) (snd (snd scene_box_min)))))"

text \<open>The objects that pass every filter of the loop.\<close>

definition contributes :: "host \<Rightarrow> operator \<Rightarrow> scene \<Rightarrow> oid \<Rightarrow> bool" where
  "contributes h self sc ob \<longleftrightarrow>
     ob \<in> set (candidate_objects self sc) \<and>
     otype (obj sc ob) \<notin> set excluded_types \<and>
     \<not> is_bound_box_empty h (bound_box (obj sc ob))"

subsection \<open>Making duplicates real\<close>

definition make_duplicates_real_before :: "host \<Rightarrow> pstate \<Rightarrow> pstate" where
  "make_duplicates_real_before h s =
     s\<lparr>old_objects := scene_objects (scene s),
       old_objects_len := length (scene_objects (scene s)),
       scene := duplicates_make_real h (select_all h (scene s))\<rparr>"

text \<open>The body of the loop of lines 582 to 585, on the pair of the scene and
  \<open>selected_count\<close>.\<close>

definition select_step ::
  "host \<Rightarrow> oid list \<Rightarrow> oid list \<Rightarrow> oid \<Rightarrow> scene \<times> nat \<Rightarrow> scene \<times> nat" where
  "select_step h new_objects old ob acc =
     (case acc of (sc, selected_count) \<Rightarrow>
        let sc' = select_set h ob (ob \<in> set new_objects \<and> ob \<notin> set old) sc
        in (sc', if selected (obj sc' ob) then selected_count + 1 else selected_count))"

definition make_duplicates_real_after :: "host \<Rightarrow> pstate \<Rightarrow> result" where
  "make_duplicates_real_after h s =
     (let new_objects = scene_objects (scene s);
          new_objects_len = length new_objects
      in if new_objects_len < old_objects_len s
         then Inl (Exception ''Error: we have less objecs after running duplicates_make_real, submit a bug'', s)
         else
           let duplicated_objects = filter (\<lambda>item. item \<notin> set (old_objects s)) new_objects
           in case (if length duplicated_objects \<noteq> 0
                    then (case fold (select_step h new_objects (old_objects s))
                                 (scene_objects (scene s)) (scene s, 0) of
                            (sc', selected_count) \<Rightarrow>
                              if selected_count \<noteq> length duplicated_objects
                              then Inl (Exception ''Error: we did not select as many as expected, submit a bug'',
                                        s\<lparr>scene := sc'\<rparr>)
                              else Inr (s\<lparr>scene := object_delete h sc'\<rparr>))
                    else Inr s) of
                Inl e \<Rightarrow> Inl e
              | Inr s' \<Rightarrow>
                  let final_objects_len = length (scene_objects (scene s'))
                  in if final_objects_len \<noteq> old_objects_len s
                     then Inl (ExceptionCounts
                                 ''At the end, we do not have as many objects as at the beginning: ''
                                 (old_objects_len s) '' -> '' new_objects_len '' -> ''
                                 final_objects_len, s')
                     else Inr s')"

subsection \<open>One frame\<close>

text \<open>Python's \<^verbatim>\<open>str.replace\<close> for a pattern that is not empty (the script's two
  patterns are constants); an empty pattern leaves the text as it is here.\<close>

fun py_replace :: "string \<Rightarrow> string \<Rightarrow> string \<Rightarrow> string" where
  "py_replace old new [] = []"
| "py_replace old new (c # cs) =
     (if old \<noteq> [] \<and> take (length old) (c # cs) = old
      then new @ py_replace old new (drop (length old - 1) cs)
      else c # py_replace old new cs)"

definition fix_scene_before_x3d_export :: "host \<Rightarrow> operator \<Rightarrow> scene \<Rightarrow> scene" where
  "fix_scene_before_x3d_export h self sc = reset_material_tags h (use_mesh_modifiers self) sc"

definition output_frame_x3d :: "host \<Rightarrow> operator \<Rightarrow> pstate \<Rightarrow> result" where
  \<open>output_frame_x3d h self s =
     (let sc1 = fix_scene_before_x3d_export h self (scene s)
      in case export_scene_x3d h self sc1 of
           Inl msg \<Rightarrow> Inl (ExporterError msg, s\<lparr>scene := sc1\<rparr>)
         | Inr (temp_contents, sc2) \<Rightarrow>
             let temp_contents1 =
                   py_replace ''<?xml version="1.0" encoding="UTF-8"?>'' [] temp_contents;
                 temp_contents2 =
                   py_replace ''<!DOCTYPE X3D PUBLIC "ISO//Web3D//DTD X3D 3.0//EN" "http://www.web3d.org/specifications/x3d-3.0.dtd">''
                     [] temp_contents1
             in Inr (file_write temp_contents2 (s\<lparr>scene := sc2\<rparr>)))\<close>

definition output_frame_gltf :: "host \<Rightarrow> operator \<Rightarrow> pstate \<Rightarrow> result" where
  "output_frame_gltf h self s =
     (case export_scene_gltf h self (scene s) of
        Inl msg \<Rightarrow> Inl (ExporterError msg, s)
      | Inr (temp_contents, sc2) \<Rightarrow> Inr (file_write temp_contents (s\<lparr>scene := sc2\<rparr>)))"

text \<open>The text of line 406, with the \<^verbatim>\<open>%f\<close> and \<^verbatim>\<open>%s\<close> fields filled in.\<close>

definition frame_line :: "host \<Rightarrow> pyfloat \<Rightarrow> string \<Rightarrow> vec \<Rightarrow> vec \<Rightarrow> string" where
  \<open>frame_line h time mime_type c sz =
     TAB @ TAB @ ''<frame time="'' @ format_f h time @
     ''" mime_type="'' @ mime_type @
     ''" bounding_box_center="'' @ format_f h (fst c) @ '' '' @ format_f h (fst (snd c)) @
       '' '' @ format_f h (snd (snd c)) @
     ''" bounding_box_size="'' @ format_f h (fst sz) @ '' '' @ format_f h (fst (snd sz)) @
       '' '' @ format_f h (snd (snd sz)) @ ''">'' @ NL\<close>

definition output_frame :: "host \<Rightarrow> operator \<Rightarrow> int \<Rightarrow> int \<Rightarrow> pstate \<Rightarrow> result" where
  "output_frame h self frame frame_start s =
     (let s1 = s\<lparr>scene := frame_set h frame (scene s)\<rparr>;
          s2 = (if make_duplicates_real self then make_duplicates_real_before h s1 else s1)
      in case get_current_bounding_box h self (scene s2) of
           (bounding_box_center, bounding_box_size) \<Rightarrow>
             let mime_type = (if frame_format self = GLTF then ''model/gltf+json''
                              else ''model/x3d+vrml'');
                 s3 = file_write (frame_line h (Fin (real_of_int (frame - frame_start) / 25)) mime_type
                               bounding_box_center bounding_box_size) s2
             in (case (if frame_format self = GLTF then output_frame_gltf h self s3
                       else output_frame_x3d h self s3) of
                   Inl e \<Rightarrow> Inl e
                 | Inr s4 \<Rightarrow>
                     let s5 = file_write (NL @ TAB @ TAB @ ''</frame>'' @ NL) s4
                     in if make_duplicates_real self then make_duplicates_real_after h s5
                        else Inr s5))"

subsection \<open>One animation\<close>

text \<open>
  The loop of lines 435 to 437, with the call of \<^verbatim>\<open>output_frame\<close> as the parameter
  \<open>emit\<close>. The loop does not end when \<open>1 + skip \<le> 0\<close>: the result is then \<open>None\<close>.
\<close>

partial_function (option) frames_loop ::
  "(int \<Rightarrow> 's \<Rightarrow> 'e + 's) \<Rightarrow> int \<Rightarrow> int \<Rightarrow> int \<Rightarrow> 's \<Rightarrow> ('e + 's) option" where
  "frames_loop emit skip frame_end frame s =
     (if frame < frame_end then
        (case emit frame s of
           Inl e \<Rightarrow> Some (Inl e)
         | Inr s' \<Rightarrow> frames_loop emit skip frame_end (frame + (1 + skip)) s')
      else Some (Inr s))"

declare frames_loop.simps [code]

text \<open>Lines 434 to 440: the loop, then the last frame.\<close>

definition animation_frames ::
  "(int \<Rightarrow> 's \<Rightarrow> 'e + 's) \<Rightarrow> int \<Rightarrow> int \<Rightarrow> int \<Rightarrow> 's \<Rightarrow> ('e + 's) option" where
  "animation_frames emit skip frame_start frame_end s =
     (case frames_loop emit skip frame_end frame_start s of
        None \<Rightarrow> None
      | Some (Inl e) \<Rightarrow> Some (Inl e)
      | Some (Inr s') \<Rightarrow> Some (emit frame_end s'))"

definition animation_open_tag :: "string \<Rightarrow> string" where
  \<open>animation_open_tag animation_name =
     (if animation_name \<noteq> ''''
      then TAB @ ''<animation name="'' @ animation_name @ ''">'' @ NL
      else TAB @ ''<animation>'' @ NL)\<close>

definition output_one_animation ::
  "host \<Rightarrow> operator \<Rightarrow> string \<Rightarrow> int \<Rightarrow> int \<Rightarrow> pstate \<Rightarrow> result option" where
  "output_one_animation h self animation_name frame_start frame_end s =
     (let s1 = file_write (animation_open_tag animation_name) s
      in case animation_frames (\<lambda>frame. output_frame h self frame frame_start)
                (frame_skip self) frame_start frame_end s1 of
           None \<Rightarrow> None
         | Some (Inl e) \<Rightarrow> Some (Inl e)
         | Some (Inr s2) \<Rightarrow> Some (Inr (file_write (TAB @ ''</animation>'' @ NL) s2)))"

text \<open>
  The frame sampler: the frame numbers with which lines 434 to 440 call
  \<^verbatim>\<open>output_frame\<close>, in order, when no call raises.
\<close>

definition record_frame :: "int \<Rightarrow> int list \<Rightarrow> unit + int list" where
  "record_frame frame acc = Inr (acc @ [frame])"

definition Sample :: "int \<Rightarrow> int \<Rightarrow> int \<Rightarrow> int list option" where
  "Sample range_start range_end skip =
     (case animation_frames record_frame skip range_start range_end [] of
        Some (Inr frames) \<Rightarrow> Some frames
      | _ \<Rightarrow> None)"

subsection \<open>The whole export\<close>

text \<open>Python's \<^verbatim>\<open>int\<close> of a float truncates towards zero.\<close>

definition py_int :: "real \<Rightarrow> int" where
  "py_int x = (if 0 \<le> x then \<lfloor>x\<rfloor> else \<lceil>x\<rceil>)"

text \<open>\<^verbatim>\<open>context.scene.objects[key]\<close>: the object of that name, or a \<^verbatim>\<open>KeyError\<close>.\<close>

definition lookup_object :: "scene \<Rightarrow> string \<Rightarrow> oid option" where
  "lookup_object sc key = find (\<lambda>ob. name (obj sc ob) = key) (scene_objects sc)"

text \<open>The assignment \<^verbatim>\<open>ob.animation_data.action = a\<close>.\<close>

definition set_action :: "oid \<Rightarrow> action option \<Rightarrow> pstate \<Rightarrow> result" where
  "set_action ob a s =
     (case animation_data s ob of
        None \<Rightarrow> Inl (AttributeError ''action'', s)
      | Some _ \<Rightarrow> Inr (s\<lparr>animation_data := (animation_data s)(ob \<mapsto> a),
                        action_log := action_log s @ [a]\<rparr>))"

text \<open>The loop of lines 470 to 476.\<close>

fun export_actions ::
  "host \<Rightarrow> operator \<Rightarrow> oid \<Rightarrow> action list \<Rightarrow> pstate \<Rightarrow> result option" where
  "export_actions h self ob [] s = Some (Inr s)"
| "export_actions h self ob (a # as) s =
     (case frame_range a of (act_start, act_end) \<Rightarrow>
        (case set_action ob (Some a) s of
           Inl e \<Rightarrow> Some (Inl e)
         | Inr s1 \<Rightarrow>
             (case output_one_animation h self (action_name a)
                     (py_int act_start) (py_int act_end) s1 of
                None \<Rightarrow> None
              | Some (Inl e) \<Rightarrow> Some (Inl e)
              | Some (Inr s2) \<Rightarrow> export_actions h self ob as s2)))"

text \<open>The \<^verbatim>\<open>finally\<close> clause of line 480: it runs after the loop on both exits; an error
  of the clause itself replaces the pending one.\<close>

definition restore_action :: "oid \<Rightarrow> action option \<Rightarrow> result \<Rightarrow> result" where
  "restore_action ob original_action r =
     (case r of
        Inl (e, s) \<Rightarrow> (case set_action ob original_action s of
                         Inl e' \<Rightarrow> Inl e'
                       | Inr s' \<Rightarrow> Inl (e, s'))
      | Inr s \<Rightarrow> set_action ob original_action s)"

definition actions_to_export :: "host \<Rightarrow> scene \<Rightarrow> oid \<Rightarrow> action list" where
  "actions_to_export h sc ob =
     filter (\<lambda>a. user_of_id h sc ob a \<or> use_fake_user a) (actions sc)"

definition execute :: "host \<Rightarrow> operator \<Rightarrow> pstate \<Rightarrow> result option" where
  \<open>execute h self s0 =
     (let s = file_write (''<animations>'' @ NL)
                (file_write (''<?xml version="1.0"?>'' @ NL) (s0\<lparr>output_file := []\<rparr>))
      in case
           (if actions_object self \<noteq> '''' then
              (case lookup_object (scene s) (actions_object self) of
                 None \<Rightarrow> Some (Inl (KeyError (actions_object self), s))
               | Some actions_object_o \<Rightarrow>
                   let to_export = actions_to_export h (scene s) actions_object_o
                   in if length to_export > 0 then
                        (case animation_data s actions_object_o of
                           None \<Rightarrow> Some (Inl (AttributeError ''action'', s))
                         | Some original_action \<Rightarrow>
                             map_option (restore_action actions_object_o original_action)
                               (export_actions h self actions_object_o to_export s))
                      else Some (Inl (Exception (''No action found on object "'' @
                                                   actions_object self @ ''"''), s)))
            else output_one_animation h self ''animation''
                   (scene_frame_start (scene s)) (scene_frame_end (scene s)) s) of
           None \<Rightarrow> None
         | Some (Inl e) \<Rightarrow> Some (Inl e)
         | Some (Inr s') \<Rightarrow> Some (Inr (file_write (''</animations>'' @ NL) s')))\<close>


subsection \<open>Auxiliary notions for the statements\<close>

text \<open>The test of lines 227 and 228 on one object, the transformed corners of an object
  (the \<^verbatim>\<open>object_box_points\<close> of line 232), and what the statements about the bounding box
  ask of the floats: \<open>corners_satisfy P\<close> says that every coordinate of every transformed
  corner of every object that passes the filters has the property \<open>P\<close>. \<open>fvle a b\<close> says
  that the coordinates of \<open>a\<close> and \<open>b\<close> are finite and those of \<open>a\<close> are at most those of
  \<open>b\<close>.\<close>

definition passes :: "host \<Rightarrow> scene \<Rightarrow> oid \<Rightarrow> bool" where
  "passes h sc ob \<longleftrightarrow> otype (obj sc ob) \<notin> set excluded_types \<and>
     \<not> is_bound_box_empty h (bound_box (obj sc ob))"

definition is_finite :: "pyfloat \<Rightarrow> bool" where
  "is_finite x = (case x of Fin a \<Rightarrow> True | _ \<Rightarrow> False)"


definition vec_all :: "(pyfloat \<Rightarrow> bool) \<Rightarrow> vec \<Rightarrow> bool" where
  "vec_all P v \<longleftrightarrow> P (fst v) \<and> P (fst (snd v)) \<and> P (snd (snd v))"

definition world_corners :: "host \<Rightarrow> operator \<Rightarrow> scene \<Rightarrow> oid \<Rightarrow> vec list" where
  "world_corners h self sc ob =
     map (axis_conversion h (axis_forward self) (axis_up self) \<circ> matrix_world (obj sc ob))
       (bound_box (obj sc ob))"

definition corners_satisfy :: "(pyfloat \<Rightarrow> bool) \<Rightarrow> host \<Rightarrow> operator \<Rightarrow> scene \<Rightarrow> bool" where
  "corners_satisfy P h self sc \<longleftrightarrow>
     (\<forall>ob \<in> set (scene_objects sc).
        contributes h self sc ob \<longrightarrow> (\<forall>v \<in> set (world_corners h self sc ob). vec_all P v))"

definition fin_le :: "pyfloat \<Rightarrow> pyfloat \<Rightarrow> bool" where
  "fin_le x y \<longleftrightarrow> is_finite x \<and> is_finite y \<and> fle x y"

definition fvle :: "vec \<Rightarrow> vec \<Rightarrow> bool" where
  "fvle a b \<longleftrightarrow> fin_le (fst a) (fst b) \<and> fin_le (fst (snd a)) (fst (snd b)) \<and>
     fin_le (snd (snd a)) (snd (snd b))"

text \<open>The corner of an uninitialised box, and the comparison of a box element with
  \<open>-1\<close> that looks at its components.\<close>

definition minus_one_corner :: vec where
  "minus_one_corner = (Fin (-1), Fin (-1), Fin (-1))"

definition componentwise_ne_minus1 :: "vec \<Rightarrow> bool" where
  "componentwise_ne_minus1 f \<longleftrightarrow> f \<noteq> minus_one_corner"

text \<open>The state in which a run ended, with or without an exception.\<close>

definition final_state :: "result \<Rightarrow> pstate" where
  "final_state r = (case r of Inl (e, s) \<Rightarrow> s | Inr s \<Rightarrow> s)"

text \<open>\<open>extends s s'\<close>: from \<open>s\<close> to \<open>s'\<close> the output file has only grown, and the action
  bindings and their log are unchanged.\<close>

definition extends :: "pstate \<Rightarrow> pstate \<Rightarrow> bool" where
  "extends s s' \<longleftrightarrow>
     (\<exists>rest. output_file s' = output_file s @ rest) \<and>
     animation_data s' = animation_data s \<and> action_log s' = action_log s"

text \<open>The state of \<^verbatim>\<open>output_frame\<close> right after the write of line 406.\<close>

definition after_frame_line :: "host \<Rightarrow> operator \<Rightarrow> int \<Rightarrow> int \<Rightarrow> pstate \<Rightarrow> pstate" where
  "after_frame_line h self frame frame_start s =
     (let s1 = s\<lparr>scene := frame_set h frame (scene s)\<rparr>;
          s2 = (if make_duplicates_real self then make_duplicates_real_before h s1 else s1);
          bb = get_current_bounding_box h self (scene s2)
      in file_write (frame_line h (Fin (real_of_int (frame - frame_start) / 25))
            (if frame_format self = GLTF then ''model/gltf+json'' else ''model/x3d+vrml'')
            (fst bb) (snd bb)) s2)"

subsection \<open>A concrete host and concrete scenes\<close>

text \<open>
  The evaluations below run the functions on a host that does what its documentation
  says: an element of a bounding box differs from \<open>-1\<close> when one of its components does,
  \<^verbatim>\<open>select_all\<close> selects every object, \<^verbatim>\<open>select_set\<close> sets the flag of one object,
  \<^verbatim>\<open>delete\<close> removes the selected objects, no object has duplicates to make real, the
  axis conversion is the identity and the exporters return a fixed document.
\<close>

definition plain_host :: host where
  "plain_host =
     \<lparr>axis_conversion = (\<lambda>to_forward to_up. id),
      elem_ne_minus1 = componentwise_ne_minus1,
      frame_set = (\<lambda>frame sc. sc),
      select_all = (\<lambda>sc. sc\<lparr>obj := (\<lambda>ob. (obj sc ob)\<lparr>selected := True\<rparr>)\<rparr>),
      duplicates_make_real = (\<lambda>sc. sc),
      select_set = (\<lambda>ob b sc. sc\<lparr>obj := (obj sc)(ob := (obj sc ob)\<lparr>selected := b\<rparr>)\<rparr>),
      object_delete =
        (\<lambda>sc. sc\<lparr>scene_objects := filter (\<lambda>ob. \<not> selected (obj sc ob)) (scene_objects sc)\<rparr>),
      user_of_id = (\<lambda>sc ob a. False),
      reset_material_tags = (\<lambda>b sc. sc),
      export_scene_x3d = (\<lambda>self sc. Inr (''<X3D/>'', sc)),
      export_scene_gltf = (\<lambda>self sc. Inr (''{}'', sc)),
      format_f = (\<lambda>x. if x = Fin 0 then ''0.000000'' else ''?'')\<rparr>"

definition default_operator :: operator where
  "default_operator =
     \<lparr>filepath = ''out.castle-anim-frames'', frame_skip = 4, actions_object = [],
      make_duplicates_real = False, frame_format = GLTF, use_selection = False,
      use_mesh_modifiers = True, use_triangulate = False, use_normals = False,
      use_hierarchy = True, name_decorations = True, use_h3d = False,
      axis_forward = ''Z'', axis_up = ''Y'', path_mode = ''AUTO''\<rparr>"

text \<open>The eight corners of the cube from \<open>-1\<close> to \<open>1\<close>, in the order of the host.\<close>

definition cube :: "vec list" where
  "cube = [(Fin (-1), Fin (-1), Fin (-1)), (Fin (-1), Fin (-1), Fin 1),
           (Fin (-1), Fin 1, Fin 1), (Fin (-1), Fin 1, Fin (-1)),
           (Fin 1, Fin (-1), Fin (-1)), (Fin 1, Fin (-1), Fin 1),
           (Fin 1, Fin 1, Fin 1), (Fin 1, Fin 1, Fin (-1))]"

definition cube_object :: "string \<Rightarrow> string \<Rightarrow> matrix \<Rightarrow> object" where
  "cube_object nm ty m =
     \<lparr>name = nm, otype = ty, visible = True, selected = False, bound_box = cube,
      matrix_world = m\<rparr>"

text \<open>A scene with one visible, unselected object of the given type.\<close>

definition one_object_scene :: "string \<Rightarrow> scene" where
  "one_object_scene ty =
     \<lparr>scene_objects = [0], obj = (\<lambda>ob. cube_object ''Object'' ty id),
      scene_frame_start = 1, scene_frame_end = 250, actions = []\<rparr>"

text \<open>A scene with two meshes, the second one moved by 5 along the first axis.\<close>

definition two_object_scene :: scene where
  "two_object_scene =
     \<lparr>scene_objects = [0, 1],
      obj = (\<lambda>ob. if ob = 0 then cube_object ''Cube'' ''MESH'' id
                   else cube_object ''Cube.001'' ''MESH'' (\<lambda>v. (fadd (fst v) (Fin 5), snd v))),
      scene_frame_start = 1, scene_frame_end = 250, actions = []\<rparr>"

text \<open>A scene whose only object is a mesh with the box that the host gives to an object
  without geometry: eight corners \<open>(-1, -1, -1)\<close>.\<close>

definition blank_scene :: scene where
  "blank_scene =
     \<lparr>scene_objects = [0],
      obj = (\<lambda>ob. (cube_object ''Cube'' ''MESH'' id)\<lparr>bound_box := replicate 8 minus_one_corner\<rparr>),
      scene_frame_start = 1, scene_frame_end = 250, actions = []\<rparr>"

text \<open>A mesh whose world matrix gives NaN for the first coordinate, alone in a scene and
  followed by a plain cube.\<close>

definition nan_scene :: scene where
  "nan_scene =
     \<lparr>scene_objects = [0], obj = (\<lambda>ob. cube_object ''Cube'' ''MESH'' (\<lambda>v. (NaN, snd v))),
      scene_frame_start = 1, scene_frame_end = 250, actions = []\<rparr>"


definition initial_state :: "scene \<Rightarrow> pstate" where
  "initial_state sc =
     \<lparr>scene = sc, output_file = [], old_objects = [], old_objects_len = 0,
      animation_data = Map.empty, action_log = []\<rparr>"

text \<open>An action that persists without users, and a scene with one armature that holds it;
  a host whose glTF exporter fails.\<close>

definition walk :: action where
  "walk = \<lparr>action_name = ''Walk'', frame_range = (1, 3), use_fake_user = True\<rparr>"

definition armature_scene :: scene where
  "armature_scene = (one_object_scene ''ARMATURE'')\<lparr>actions := [walk]\<rparr>"

definition armature_state :: pstate where
  "armature_state = (initial_state armature_scene)\<lparr>animation_data := [0 \<mapsto> None]\<rparr>"

definition actions_operator :: operator where
  "actions_operator = default_operator\<lparr>actions_object := ''Object''\<rparr>"

definition failing_host :: host where
  "failing_host = plain_host\<lparr>export_scene_gltf := (\<lambda>self sc. Inl ''export failed'')\<rparr>"

text \<open>States between the two hooks: one where an object of the pre-hook has gone, one
  where object 1 has been created since the pre-hook; and a host whose \<^verbatim>\<open>select_set\<close>
  has no effect.\<close>

definition shrunk_state :: pstate where
  "shrunk_state =
     (initial_state (one_object_scene ''MESH''))\<lparr>old_objects := [0, 1], old_objects_len := 2\<rparr>"

definition duplicated_state :: pstate where
  "duplicated_state =
     (initial_state two_object_scene)\<lparr>old_objects := [0], old_objects_len := 1\<rparr>"

definition deaf_host :: host where
  "deaf_host = plain_host\<lparr>select_set := (\<lambda>ob b sc. sc)\<rparr>"

section \<open>The frame sampler\<close>

text \<open>The loop ends for every \<open>skip \<ge> 0\<close>; it calls \<open>emit\<close> on frames below
  \<open>frame_end\<close> only, in strictly increasing order, starting with \<open>frame\<close>.\<close>

lemma frames_loop_record:
  assumes "0 \<le> skip"
  shows "\<exists>xs. frames_loop record_frame skip fe f acc = Some (Inr (acc @ xs)) \<and>
              sorted_wrt (<) xs \<and> (\<forall>x\<in>set xs. f \<le> x \<and> x < fe) \<and>
              (f < fe \<longrightarrow> xs \<noteq> [] \<and> hd xs = f)"
proof (induction "nat (fe - f)" arbitrary: f acc rule: less_induct)
  case less
  show ?case
  proof (cases "f < fe")
    case True
    have "nat (fe - (f + (1 + skip))) < nat (fe - f)"
      using True assms by simp
    from less[OF this, of "acc @ [f]"] obtain xs where
      xs: "frames_loop record_frame skip fe (f + (1 + skip)) (acc @ [f]) = Some (Inr ((acc @ [f]) @ xs))"
        "sorted_wrt (<) xs" "\<forall>x\<in>set xs. f + (1 + skip) \<le> x \<and> x < fe"
      by blast
    have "frames_loop record_frame skip fe f acc = Some (Inr (acc @ (f # xs)))"
      by (subst frames_loop.simps) (simp add: True record_frame_def xs(1)[simplified])
    moreover have "sorted_wrt (<) (f # xs)"
      using xs(2,3) assms by auto
    moreover have "\<forall>x\<in>set (f # xs). f \<le> x \<and> x < fe"
      using xs(3) True assms by auto
    ultimately show ?thesis
      by (intro exI[of _ "f # xs"]) simp
  next
    case False
    then have "frames_loop record_frame skip fe f acc = Some (Inr (acc @ []))"
      by (subst frames_loop.simps) simp
    with False show ?thesis
      by (intro exI[of _ "[]"]) simp
  qed
qed

lemma Sample_shape:
  assumes "0 \<le> skip"
  shows "\<exists>xs. Sample range_start range_end skip = Some (xs @ [range_end]) \<and>
              sorted_wrt (<) xs \<and> (\<forall>x\<in>set xs. range_start \<le> x \<and> x < range_end) \<and>
              (range_start < range_end \<longrightarrow> xs \<noteq> [] \<and> hd xs = range_start)"
proof -
  from frames_loop_record[OF assms, of range_end range_start "[]"] obtain xs where
    xs: "frames_loop record_frame skip range_end range_start [] = Some (Inr xs)"
      "sorted_wrt (<) xs" "\<forall>x\<in>set xs. range_start \<le> x \<and> x < range_end"
      "range_start < range_end \<longrightarrow> xs \<noteq> [] \<and> hd xs = range_start"
    by auto
  have "Sample range_start range_end skip = Some (xs @ [range_end])"
    by (simp add: Sample_def animation_frames_def xs(1) record_frame_def)
  with xs(2-4) show ?thesis by blast
qed

text \<open>
  Claim C1, as amended. The loop runs while \<open>frame < frame_end\<close>, so it never emits
  \<open>range_end\<close> itself: for every \<open>skip \<ge> 0\<close> the sampler returns, \<open>range_end\<close> occurs
  exactly once in the emitted sequence, as its last element, and the whole sequence is
  strictly increasing, whether or not \<open>1 + skip\<close> divides \<open>range_end - range_start\<close>.
\<close>

theorem Sample_no_duplicate:
  "0 \<le> skip \<Longrightarrow>
   \<exists>frames. Sample range_start range_end skip = Some frames \<and>
            count_list frames range_end = 1 \<and> last frames = range_end \<and>
            sorted_wrt (<) frames"
proof -
  assume "0 \<le> skip"
  from Sample_shape[OF this, of range_start range_end] obtain xs where
    xs: "Sample range_start range_end skip = Some (xs @ [range_end])"
      "sorted_wrt (<) xs" "\<forall>x\<in>set xs. range_start \<le> x \<and> x < range_end"
    by blast
  have "range_end \<notin> set xs" using xs(3) by auto
  then have "count_list (xs @ [range_end]) range_end = 1"
    by (simp add: count_list_0_iff)
  moreover have "distinct xs"
    using xs(2) strict_sorted_iff by blast
  moreover have "sorted_wrt (<) (xs @ [range_end])"
    using xs(2,3) by (simp add: sorted_wrt_append)
  ultimately show ?thesis using xs(1) \<open>range_end \<notin> set xs\<close> by simp
qed

theorem Sample_no_duplicate_witness:
  "0 \<le> (4::int) \<and>
   (\<exists>frames. Sample 0 10 4 = Some frames \<and> count_list frames 10 = 1 \<and>
             last frames = 10 \<and> sorted_wrt (<) frames)"
  using Sample_no_duplicate [of 4 0 10] by simp

text \<open>
  Claim C1 as stated fails: \<open>1 + 4\<close> divides \<open>10 - 0\<close>, and \<open>Sample 0 10 4\<close> is
  \<open>[0, 5, 10]\<close>, without a second \<open>10\<close>.
\<close>

theorem Sample_duplicate_counterexample:
  "Sample 0 10 4 = Some [0, 5, 10] \<and> Sample 0 10 4 \<noteq> Some [0, 5, 10, 10] \<and>
   (10 - 0) mod (1 + 4) = (0::int) \<and> count_list [0, 5, 10] (10::int) \<noteq> 2"
  by (simp add: Sample_def animation_frames_def frames_loop.simps record_frame_def)

text \<open>
  Claim C2. For \<open>range_start \<le> range_end\<close> and \<open>skip \<ge> 0\<close> (so for every skip from 0 to
  50) the sampler returns a sequence whose first element is \<open>range_start\<close>, whose last
  element is \<open>range_end\<close>, and which is strictly increasing up to its last element,
  which is not below the one before it.
\<close>

theorem Sample_first_last_increasing:
  "range_start \<le> range_end \<Longrightarrow> 0 \<le> skip \<Longrightarrow>
   \<exists>frames. Sample range_start range_end skip = Some frames \<and> frames \<noteq> [] \<and>
            hd frames = range_start \<and> last frames = range_end \<and>
            sorted_wrt (<) (butlast frames) \<and>
            (butlast frames \<noteq> [] \<longrightarrow> last (butlast frames) \<le> last frames)"
proof -
  assume le: "range_start \<le> range_end" and "0 \<le> skip"
  from Sample_shape[OF this(2), of range_start range_end] obtain xs where
    xs: "Sample range_start range_end skip = Some (xs @ [range_end])"
      "sorted_wrt (<) xs" "\<forall>x\<in>set xs. range_start \<le> x \<and> x < range_end"
      "range_start < range_end \<longrightarrow> xs \<noteq> [] \<and> hd xs = range_start"
    by blast
  have "hd (xs @ [range_end]) = range_start"
  proof (cases "range_start < range_end")
    case True
    with xs(4) show ?thesis by simp
  next
    case False
    with le have eq: "range_start = range_end" by simp
    with xs(3) have "xs = []" by (cases xs) auto
    with eq show ?thesis by simp
  qed
  moreover have "xs \<noteq> [] \<longrightarrow> last xs \<le> range_end"
  proof
    assume "xs \<noteq> []"
    then have "last xs \<in> set xs" by simp
    with xs(3) show "last xs \<le> range_end" by force
  qed
  ultimately show ?thesis using xs(1,2) by simp
qed

theorem Sample_first_last_increasing_witness:
  "(3::int) \<le> 11 \<and> (0::int) \<le> 50 \<and>
   (\<exists>frames. Sample 3 11 50 = Some frames \<and> frames \<noteq> [] \<and>
             hd frames = 3 \<and> last frames = 11 \<and>
             sorted_wrt (<) (butlast frames) \<and>
             (butlast frames \<noteq> [] \<longrightarrow> last (butlast frames) \<le> last frames))"
  using Sample_first_last_increasing [of 3 11 50] by simp


section \<open>The bounding box\<close>

lemma not_empty_box_has_corner: "\<not> is_bound_box_empty h bb \<Longrightarrow> bb \<noteq> []"
  by (cases bb) simp_all

lemma is_bound_box_empty_iff:
  "is_bound_box_empty h bb \<longleftrightarrow> (\<forall>f\<in>set bb. \<not> elem_ne_minus1 h f)"
  by (induction bb) simp_all

lemma is_bound_box_empty_componentwise:
  "elem_ne_minus1 h = componentwise_ne_minus1 \<Longrightarrow>
   is_bound_box_empty h bb \<longleftrightarrow> (\<forall>c\<in>set bb. c = minus_one_corner)"
  by (simp add: is_bound_box_empty_iff componentwise_ne_minus1_def)

subsection \<open>Minimum and maximum of floats\<close>





text \<open>On finite floats the minimum is below the maximum.\<close>

lemma fin_le_refl: "is_finite x \<Longrightarrow> fin_le x x"
  by (cases x) (simp_all add: fin_le_def is_finite_def)

lemma fin_le_corner: "fin_le mn mx \<Longrightarrow> is_finite v \<Longrightarrow> fin_le (py_min v mn) (py_max v mx)"
  by (cases mn; cases mx; cases v) (simp_all add: fin_le_def is_finite_def py_min_def py_max_def)

lemma fin_le_join: "fin_le mn mx \<Longrightarrow> fin_le a b \<Longrightarrow> fin_le (py_min mn a) (py_max mx b)"
  by (cases mn; cases mx; cases a; cases b)
     (simp_all add: fin_le_def is_finite_def py_min_def py_max_def)

lemma fin_le_size: "fin_le mn mx \<Longrightarrow> fle (Fin 0) (fsub mx mn)"
  by (cases mn; cases mx) (simp_all add: fin_le_def is_finite_def)

lemma fvle_refl: "vec_all is_finite v \<Longrightarrow> fvle v v"
  by (simp add: fvle_def vec_all_def fin_le_refl)

lemma fvle_corner: "fvle mn mx \<Longrightarrow> vec_all is_finite v \<Longrightarrow> fvle (vmin v mn) (vmax v mx)"
  by (simp add: fvle_def vec_all_def vmin_def vmax_def fin_le_corner)

lemma fvle_join: "fvle mn mx \<Longrightarrow> fvle a b \<Longrightarrow> fvle (vmin mn a) (vmax mx b)"
  by (simp add: fvle_def vmin_def vmax_def fin_le_join)

lemma corners_fold_fvle:
  "\<forall>v\<in>set pts. vec_all is_finite v \<Longrightarrow> fvle mn mx \<Longrightarrow>
   fvle (fst (fold (\<lambda>v (mn, mx). (vmin v mn, vmax v mx)) pts (mn, mx)))
        (snd (fold (\<lambda>v (mn, mx). (vmin v mn, vmax v mx)) pts (mn, mx)))"
proof (induction pts arbitrary: mn mx)
  case Nil
  then show ?case by simp
next
  case (Cons p pts)
  have "fvle (vmin p mn) (vmax p mx)"
    using Cons.prems by (simp add: fvle_corner)
  with Cons.IH[of "vmin p mn" "vmax p mx"] Cons.prems(1) show ?case by simp
qed

lemma object_box_fvle:
  assumes "bound_box ob \<noteq> []"
    and "\<forall>v\<in>set (map (gm \<circ> matrix_world ob) (bound_box ob)). vec_all is_finite v"
  shows "fvle (fst (object_box gm ob)) (snd (object_box gm ob))"
proof -
  let ?pts = "map (gm \<circ> matrix_world ob) (bound_box ob)"
  have "?pts \<noteq> []" using assms(1) by simp
  then have "hd ?pts \<in> set ?pts" by (rule hd_in_set)
  with assms(2) have "vec_all is_finite (hd ?pts)" by blast
  then have "fvle (hd ?pts) (hd ?pts)" by (rule fvle_refl)
  from corners_fold_fvle[OF assms(2) this] show ?thesis
    by (simp add: object_box_def Let_def)
qed









subsection \<open>The loop over the objects\<close>

lemma scene_box_step_skip:
  "\<not> passes h sc ob \<Longrightarrow> scene_box_step h gm sc ob acc = acc"
  by (cases acc) (auto simp: scene_box_step_def passes_def)

lemma scene_box_step_pass:
  "passes h sc ob \<Longrightarrow> \<not> fst (scene_box_step h gm sc ob acc)"
  by (cases acc; cases "object_box gm (obj sc ob)") (simp add: scene_box_step_def passes_def)

lemma scene_box_step_inv:
  assumes "fst acc \<or> fvle (fst (snd acc)) (snd (snd acc))"
    and "passes h sc ob \<longrightarrow> fvle (fst (object_box gm (obj sc ob))) (snd (object_box gm (obj sc ob)))"
  shows "fst (scene_box_step h gm sc ob acc) \<or>
         fvle (fst (snd (scene_box_step h gm sc ob acc))) (snd (snd (scene_box_step h gm sc ob acc)))"
proof (cases "passes h sc ob")
  case False
  with assms show ?thesis by (simp add: scene_box_step_skip)
next
  case True
  obtain e mn mx where acc: "acc = (e, mn, mx)" by (cases acc) auto
  obtain a b where ob: "object_box gm (obj sc ob) = (a, b)" by (cases "object_box gm (obj sc ob)") auto
  have ab: "fvle a b" using assms(2) True ob by simp
  show ?thesis
  proof (cases e)
    case True
    with \<open>passes h sc ob\<close> acc ob ab show ?thesis
      by (simp add: scene_box_step_def passes_def)
  next
    case False
    with assms acc have "fvle mn mx" by simp
    with ab have "fvle (vmin mn a) (vmax mx b)" by (simp add: fvle_join)
    with \<open>passes h sc ob\<close> acc ob False show ?thesis
      by (simp add: scene_box_step_def passes_def)
  qed
qed

lemma scene_fold_inv:
  "fst acc \<or> fvle (fst (snd acc)) (snd (snd acc)) \<Longrightarrow>
   \<forall>ob\<in>set obs. passes h sc ob \<longrightarrow>
      fvle (fst (object_box gm (obj sc ob))) (snd (object_box gm (obj sc ob))) \<Longrightarrow>
   fst (fold (scene_box_step h gm sc) obs acc) \<or>
   fvle (fst (snd (fold (scene_box_step h gm sc) obs acc)))
        (snd (snd (fold (scene_box_step h gm sc) obs acc)))"
proof (induction obs arbitrary: acc)
  case Nil
  then show ?case by simp
next
  case (Cons ob obs)
  have "passes h sc ob \<longrightarrow>
      fvle (fst (object_box gm (obj sc ob))) (snd (object_box gm (obj sc ob)))"
    using Cons.prems(2) by simp
  from scene_box_step_inv[OF Cons.prems(1) this]
  have "fst (scene_box_step h gm sc ob acc) \<or>
         fvle (fst (snd (scene_box_step h gm sc ob acc))) (snd (snd (scene_box_step h gm sc ob acc)))" .
  from Cons.IH[OF this] Cons.prems(2) show ?case by simp
qed

lemma scene_fold_empty_flag:
  "fst (fold (scene_box_step h gm sc) obs acc) \<longleftrightarrow> fst acc \<and> (\<forall>ob\<in>set obs. \<not> passes h sc ob)"
proof (induction obs arbitrary: acc)
  case Nil
  then show ?case by simp
next
  case (Cons ob obs)
  show ?case
  proof (cases "passes h sc ob")
    case True
    from scene_box_step_pass[OF this, of gm acc] True show ?thesis
      by (simp add: Cons.IH)
  next
    case False
    then show ?thesis by (simp add: Cons.IH scene_box_step_skip)
  qed
qed

lemma scene_fold_skip_all:
  "\<forall>ob\<in>set obs. \<not> passes h sc ob \<Longrightarrow> fold (scene_box_step h gm sc) obs acc = acc"
  by (induction obs arbitrary: acc) (simp_all add: scene_box_step_skip)

lemma contributes_iff:
  "contributes h self sc ob \<longleftrightarrow> ob \<in> set (candidate_objects self sc) \<and> passes h sc ob"
  by (simp add: contributes_def passes_def)

lemma candidate_in_scene: "ob \<in> set (candidate_objects self sc) \<Longrightarrow> ob \<in> set (scene_objects sc)"
  by (simp add: candidate_objects_def split: if_splits)

lemma no_contribution_sentinel:
  assumes "\<forall>ob. \<not> contributes h self sc ob"
  shows "get_current_bounding_box h self sc =
           ((Fin 0, Fin 0, Fin 0), (Fin (-1), Fin (-1), Fin (-1)))"
proof -
  let ?gm = "axis_conversion h (axis_forward self) (axis_up self)"
  let ?init = "(True, (Fin 0, Fin 0, Fin 0), (Fin 0, Fin 0, Fin 0)) :: bool \<times> vec \<times> vec"
  from assms have "\<forall>ob\<in>set (candidate_objects self sc). \<not> passes h sc ob"
    by (simp add: contributes_iff)
  then have "fold (scene_box_step h ?gm sc) (candidate_objects self sc) ?init = ?init"
    by (rule scene_fold_skip_all)
  then show ?thesis
    by (simp add: get_current_bounding_box_def Let_def)
qed


lemma contributing_fvle:
  assumes "corners_satisfy is_finite h self sc" and "ob \<in> set (candidate_objects self sc)"
    and "passes h sc ob"
  shows "fvle (fst (object_box (axis_conversion h (axis_forward self) (axis_up self)) (obj sc ob)))
              (snd (object_box (axis_conversion h (axis_forward self) (axis_up self)) (obj sc ob)))"
proof -
  let ?gm = "axis_conversion h (axis_forward self) (axis_up self)"
  have c: "contributes h self sc ob" using assms(2,3) by (simp add: contributes_iff)
  have "ob \<in> set (scene_objects sc)" using assms(2) by (rule candidate_in_scene)
  with assms(1) c have "\<forall>v\<in>set (world_corners h self sc ob). vec_all is_finite v"
    by (simp add: corners_satisfy_def)
  then have pts: "\<forall>v\<in>set (map (?gm \<circ> matrix_world (obj sc ob)) (bound_box (obj sc ob))).
      vec_all is_finite v"
    by (simp add: world_corners_def)
  have "bound_box (obj sc ob) \<noteq> []"
    using assms(3) by (auto simp: passes_def dest: not_empty_box_has_corner)
  from object_box_fvle[OF this pts] show ?thesis .
qed

text \<open>
  Claim C3 fails on the floats of the code. The mesh of \<open>nan_scene\<close> passes every filter,
  and the first coordinate of each of its transformed corners is NaN: the minimum and the
  maximum of line 238 and line 241 are NaN, the size of line 266 is \<^verbatim>\<open>nan - nan\<close>, which
  is NaN, and \<^verbatim>\<open>nan >= 0\<close> is false.
\<close>

theorem size_not_nonnegative_counterexample:
  "contributes plain_host default_operator nan_scene 0 \<and>
   get_current_bounding_box plain_host default_operator nan_scene =
     ((NaN, Fin 0, Fin 0), (NaN, Fin 2, Fin 2)) \<and>
   \<not> fle (Fin 0) (fst (snd (get_current_bounding_box plain_host default_operator nan_scene)))"
  by (simp add: contributes_def get_current_bounding_box_def candidate_objects_def
      scene_box_step_def object_box_def nan_scene_def cube_object_def cube_def plain_host_def
      default_operator_def excluded_types_def vmin_def vmax_def py_min_def py_max_def
      componentwise_ne_minus1_def minus_one_corner_def)

text \<open>
  Claim C3, amended. When no object passes the filters, the result is the sentinel: centre
  \<open>(0, 0, 0)\<close> and size \<open>(-1, -1, -1)\<close>. On a host whose comparison of a box element with
  \<open>-1\<close> looks at the components, that is the case when every object of the scene is hidden,
  or not selected while only the selection is exported, or of one of the six types of
  line 227, or has no corner other than \<open>(-1, -1, -1)\<close>. When at least one object passes the
  filters and the transformed corners of the objects that pass them are finite, every
  component of the size is at least 0.
\<close>

theorem bounding_box_sentinel_or_finite_nonnegative:
  "((\<forall>ob. \<not> contributes h self sc ob) \<longrightarrow>
      get_current_bounding_box h self sc =
        ((Fin 0, Fin 0, Fin 0), (Fin (-1), Fin (-1), Fin (-1)))) \<and>
   (elem_ne_minus1 h = componentwise_ne_minus1 \<and>
    (\<forall>ob\<in>set (scene_objects sc).
       \<not> visible (obj sc ob) \<or> (use_selection self \<and> \<not> selected (obj sc ob)) \<or>
       otype (obj sc ob) \<in> set excluded_types \<or>
       (\<forall>c\<in>set (bound_box (obj sc ob)). c = minus_one_corner)) \<longrightarrow>
      get_current_bounding_box h self sc =
        ((Fin 0, Fin 0, Fin 0), (Fin (-1), Fin (-1), Fin (-1)))) \<and>
   ((\<exists>ob. contributes h self sc ob) \<and> corners_satisfy is_finite h self sc \<longrightarrow>
      (case get_current_bounding_box h self sc of
         (center, (sx, sy, sz)) \<Rightarrow> fle (Fin 0) sx \<and> fle (Fin 0) sy \<and> fle (Fin 0) sz))"
proof (intro conjI impI)
  assume "\<forall>ob. \<not> contributes h self sc ob"
  then show "get_current_bounding_box h self sc =
        ((Fin 0, Fin 0, Fin 0), (Fin (-1), Fin (-1), Fin (-1)))"
    by (rule no_contribution_sentinel)
next
  assume a: "elem_ne_minus1 h = componentwise_ne_minus1 \<and>
    (\<forall>ob\<in>set (scene_objects sc).
       \<not> visible (obj sc ob) \<or> (use_selection self \<and> \<not> selected (obj sc ob)) \<or>
       otype (obj sc ob) \<in> set excluded_types \<or>
       (\<forall>c\<in>set (bound_box (obj sc ob)). c = minus_one_corner))"
  have "\<not> contributes h self sc ob" for ob
  proof
    assume c: "contributes h self sc ob"
    then have cand: "ob \<in> set (candidate_objects self sc)"
      and ty: "otype (obj sc ob) \<notin> set excluded_types"
      and bb: "\<not> is_bound_box_empty h (bound_box (obj sc ob))"
      by (simp_all add: contributes_def)
    from cand have "ob \<in> set (scene_objects sc)" by (rule candidate_in_scene)
    with a have "\<not> visible (obj sc ob) \<or> (use_selection self \<and> \<not> selected (obj sc ob)) \<or>
       otype (obj sc ob) \<in> set excluded_types \<or>
       (\<forall>c\<in>set (bound_box (obj sc ob)). c = minus_one_corner)" by blast
    moreover from cand have "visible (obj sc ob)"
      by (simp add: candidate_objects_def split: if_splits)
    moreover from cand have "use_selection self \<longrightarrow> selected (obj sc ob)"
      by (simp add: candidate_objects_def split: if_splits)
    moreover from bb a have "\<not> (\<forall>c\<in>set (bound_box (obj sc ob)). c = minus_one_corner)"
      by (simp add: is_bound_box_empty_componentwise)
    ultimately show False using ty by blast
  qed
  then have "\<forall>ob. \<not> contributes h self sc ob" by blast
  then show "get_current_bounding_box h self sc =
        ((Fin 0, Fin 0, Fin 0), (Fin (-1), Fin (-1), Fin (-1)))"
    by (rule no_contribution_sentinel)
next
  let ?gm = "axis_conversion h (axis_forward self) (axis_up self)"
  let ?init = "(True, (Fin 0, Fin 0, Fin 0), (Fin 0, Fin 0, Fin 0)) :: bool \<times> vec \<times> vec"
  let ?r = "fold (scene_box_step h ?gm sc) (candidate_objects self sc) ?init"
  assume a: "(\<exists>ob. contributes h self sc ob) \<and> corners_satisfy is_finite h self sc"
  then have "\<not> (\<forall>ob\<in>set (candidate_objects self sc). \<not> passes h sc ob)"
    by (auto simp: contributes_iff)
  then have ne: "\<not> fst ?r" by (simp add: scene_fold_empty_flag)
  have boxes: "\<forall>ob\<in>set (candidate_objects self sc). passes h sc ob \<longrightarrow>
      fvle (fst (object_box ?gm (obj sc ob))) (snd (object_box ?gm (obj sc ob)))"
    using a contributing_fvle by blast
  have "fst ?init \<or> fvle (fst (snd ?init)) (snd (snd ?init))" by simp
  from scene_fold_inv[OF this boxes] ne
  have le: "fvle (fst (snd ?r)) (snd (snd ?r))" by simp
  obtain e mn mx where r: "?r = (e, mn, mx)" by (cases ?r) auto
  with ne le have "\<not> e" "fvle mn mx" by simp_all
  then show "case get_current_bounding_box h self sc of
         (center, (sx, sy, sz)) \<Rightarrow> fle (Fin 0) sx \<and> fle (Fin 0) sy \<and> fle (Fin 0) sz"
    using r by (simp add: get_current_bounding_box_def Let_def fvle_def fin_le_size)
qed

theorem bounding_box_sentinel_or_finite_nonnegative_witness:
  "get_current_bounding_box plain_host default_operator
     ((one_object_scene ''MESH'')\<lparr>scene_objects := []\<rparr>) =
     ((Fin 0, Fin 0, Fin 0), (Fin (-1), Fin (-1), Fin (-1))) \<and>
   get_current_bounding_box plain_host default_operator blank_scene =
     ((Fin 0, Fin 0, Fin 0), (Fin (-1), Fin (-1), Fin (-1))) \<and>
   (case get_current_bounding_box plain_host default_operator (one_object_scene ''MESH'') of
      (center, (sx, sy, sz)) \<Rightarrow> fle (Fin 0) sx \<and> fle (Fin 0) sy \<and> fle (Fin 0) sz)"
proof -
  have none: "\<forall>ob. \<not> contributes plain_host default_operator
                 ((one_object_scene ''MESH'')\<lparr>scene_objects := []\<rparr>) ob"
    by (simp add: contributes_def candidate_objects_def)
  have blank: "elem_ne_minus1 plain_host = componentwise_ne_minus1 \<and>
    (\<forall>ob\<in>set (scene_objects blank_scene).
       \<not> visible (obj blank_scene ob) \<or>
       (use_selection default_operator \<and> \<not> selected (obj blank_scene ob)) \<or>
       otype (obj blank_scene ob) \<in> set excluded_types \<or>
       (\<forall>c\<in>set (bound_box (obj blank_scene ob)). c = minus_one_corner))"
    by (simp add: plain_host_def blank_scene_def)
  have some: "(\<exists>ob. contributes plain_host default_operator (one_object_scene ''MESH'') ob) \<and>
      corners_satisfy is_finite plain_host default_operator (one_object_scene ''MESH'')"
  proof
    show "\<exists>ob. contributes plain_host default_operator (one_object_scene ''MESH'') ob"
      by (rule exI[of _ 0])
         (simp add: contributes_def candidate_objects_def one_object_scene_def cube_object_def
            cube_def plain_host_def default_operator_def excluded_types_def
            componentwise_ne_minus1_def minus_one_corner_def)
    show "corners_satisfy is_finite plain_host default_operator (one_object_scene ''MESH'')"
      by (simp add: corners_satisfy_def world_corners_def vec_all_def is_finite_def
            one_object_scene_def cube_object_def cube_def plain_host_def)
  qed
  have first: "get_current_bounding_box plain_host default_operator
     ((one_object_scene ''MESH'')\<lparr>scene_objects := []\<rparr>) =
     ((Fin 0, Fin 0, Fin 0), (Fin (-1), Fin (-1), Fin (-1)))"
    by (rule bounding_box_sentinel_or_finite_nonnegative
      [of plain_host default_operator "(one_object_scene ''MESH'')\<lparr>scene_objects := []\<rparr>",
       THEN conjunct1, THEN mp, OF none])
  have second: "get_current_bounding_box plain_host default_operator blank_scene =
     ((Fin 0, Fin 0, Fin 0), (Fin (-1), Fin (-1), Fin (-1)))"
    by (rule bounding_box_sentinel_or_finite_nonnegative
      [of plain_host default_operator blank_scene,
       THEN conjunct2, THEN conjunct1, THEN mp, OF blank])
  have third: "case get_current_bounding_box plain_host default_operator
      (one_object_scene ''MESH'') of
      (center, (sx, sy, sz)) \<Rightarrow> fle (Fin 0) sx \<and> fle (Fin 0) sy \<and> fle (Fin 0) sz"
    by (rule bounding_box_sentinel_or_finite_nonnegative
      [of plain_host default_operator "one_object_scene ''MESH''",
       THEN conjunct2, THEN conjunct2, THEN mp, OF some])
  from first second third show ?thesis by blast
qed



lemma scene_box_step_objects:
  "scene_box_step h gm (sc\<lparr>scene_objects := ys\<rparr>) = scene_box_step h gm sc"
  by (intro ext) (simp add: scene_box_step_def split: prod.splits)




text \<open>An object whose type is one of the six strings of line 227 never contributes.\<close>

lemma fold_skip_filter:
  "f x = id \<Longrightarrow> fold f (filter (\<lambda>y. y \<noteq> x) xs) = fold f xs"
  by (induction xs) auto

lemma excluded_type_never_contributes:
  assumes "otype (obj sc ob) \<in> set excluded_types"
  shows "get_current_bounding_box h self (sc\<lparr>scene_objects := filter (\<lambda>y. y \<noteq> ob) (scene_objects sc)\<rparr>) =
         get_current_bounding_box h self sc"
proof -
  let ?gm = "axis_conversion h (axis_forward self) (axis_up self)"
  have id: "scene_box_step h ?gm sc ob = id"
    using assms by (intro ext) (simp add: scene_box_step_skip passes_def)
  have "candidate_objects self (sc\<lparr>scene_objects := filter (\<lambda>y. y \<noteq> ob) (scene_objects sc)\<rparr>) =
        filter (\<lambda>y. y \<noteq> ob) (candidate_objects self sc)"
    by (auto simp: candidate_objects_def intro: filter_cong)
  moreover have "fold (scene_box_step h ?gm sc) (filter (\<lambda>y. y \<noteq> ob) (candidate_objects self sc)) =
        fold (scene_box_step h ?gm sc) (candidate_objects self sc)"
    using id by (rule fold_skip_filter[of "scene_box_step h ?gm sc" ob])
  ultimately show ?thesis
    by (simp add: get_current_bounding_box_def scene_box_step_objects)
qed

text \<open>
  Claim C4 fails on the code for lights. The script declares itself for version 2.80 of
  the host, where the type of a light object is \<^verbatim>\<open>LIGHT\<close>; line 227 tests the older name
  \<^verbatim>\<open>LAMP\<close>, although its comment says that lights are filtered out. A scene whose only
  object is a light with the bounding box of the cube gets the box of that cube, not the
  sentinel that the same scene without the light gets.
\<close>

theorem light_contributes_to_bounding_box:
  "get_current_bounding_box plain_host default_operator (one_object_scene ''LIGHT'') =
     ((Fin 0, Fin 0, Fin 0), (Fin 2, Fin 2, Fin 2)) \<and>
   get_current_bounding_box plain_host default_operator
     ((one_object_scene ''LIGHT'')\<lparr>scene_objects := []\<rparr>) =
     ((Fin 0, Fin 0, Fin 0), (Fin (-1), Fin (-1), Fin (-1)))"
  by (simp add: get_current_bounding_box_def candidate_objects_def scene_box_step_def
      object_box_def one_object_scene_def cube_object_def cube_def plain_host_def
      default_operator_def excluded_types_def vmin_def vmax_def py_min_def py_max_def
      componentwise_ne_minus1_def minus_one_corner_def)

section \<open>What one frame and one animation write\<close>

lemma frames_loop_rule:
  assumes run: "frames_loop emit skip fe f s = Some r"
    and step: "\<And>f s s'. I s \<Longrightarrow> emit f s = Inr s' \<Longrightarrow> I s'"
    and err: "\<And>f s e. I s \<Longrightarrow> emit f s = Inl e \<Longrightarrow> E e"
    and init: "I s"
  shows "case r of Inl e \<Rightarrow> E e | Inr s' \<Rightarrow> I s'"
proof -
  have "emit = emit \<longrightarrow> I s \<longrightarrow> (case r of Inl e \<Rightarrow> E e | Inr s' \<Rightarrow> I s')"
  proof (rule frames_loop.raw_induct
      [where P = "\<lambda>em sk fe f s r. em = emit \<longrightarrow> I s \<longrightarrow> (case r of Inl e \<Rightarrow> E e | Inr s' \<Rightarrow> I s')",
       OF _ run])
    fix fl :: "(int \<Rightarrow> 'b \<Rightarrow> 'a + 'b) \<Rightarrow> int \<Rightarrow> int \<Rightarrow> int \<Rightarrow> 'b \<Rightarrow> ('a + 'b) option"
    fix em sk fe f s r
    assume IH: "\<And>em sk fe f s r. fl em sk fe f s = Some r \<Longrightarrow>
        em = emit \<longrightarrow> I s \<longrightarrow> (case r of Inl e \<Rightarrow> E e | Inr s' \<Rightarrow> I s')"
      and eq: "(if f < fe then case em f s of Inl e \<Rightarrow> Some (Inl e)
                 | Inr s' \<Rightarrow> fl em sk fe (f + (1 + sk)) s' else Some (Inr s)) = Some r"
    show "em = emit \<longrightarrow> I s \<longrightarrow> (case r of Inl e \<Rightarrow> E e | Inr s' \<Rightarrow> I s')"
    proof (intro impI)
      assume em: "em = emit" and Is: "I s"
      show "case r of Inl e \<Rightarrow> E e | Inr s' \<Rightarrow> I s'"
      proof (cases "f < fe")
        case False
        with eq Is show ?thesis by auto
      next
        case True
        show ?thesis
        proof (cases "emit f s")
          case (Inl e)
          with eq True em err[OF Is Inl] show ?thesis by auto
        next
          case (Inr s')
          with eq True em have "fl emit sk fe (f + (1 + sk)) s' = Some r" by simp
          from IH[OF this] step[OF Is Inr] show ?thesis by simp
        qed
      qed
    qed
  qed
  with init show ?thesis by simp
qed

lemma frames_loop_total:
  assumes "0 \<le> skip"
  shows "\<exists>r. frames_loop emit skip fe f s = Some r"
proof (induction "nat (fe - f)" arbitrary: f s rule: less_induct)
  case less
  show ?case
  proof (cases "f < fe")
    case False
    then show ?thesis by (subst frames_loop.simps) simp
  next
    case True
    show ?thesis
    proof (cases "emit f s")
      case (Inl e)
      with True show ?thesis by (subst frames_loop.simps) simp
    next
      case (Inr s')
      have "nat (fe - (f + (1 + skip))) < nat (fe - f)"
        using True assms by simp
      from less[OF this, of s'] obtain r where
        "frames_loop emit skip fe (f + (1 + skip)) s' = Some r" by blast
      with True Inr show ?thesis by (subst frames_loop.simps) simp
    qed
  qed
qed

lemma extends_refl: "extends s s"
  by (simp add: extends_def)

lemma extends_trans: "extends s s' \<Longrightarrow> extends s' s'' \<Longrightarrow> extends s s''"
  by (auto simp: extends_def)

lemma extends_scene: "extends s (s\<lparr>scene := sc\<rparr>)"
  by (simp add: extends_def)

lemma extends_write: "extends s (file_write text s)"
  by (simp add: extends_def file_write_def)

lemma extends_before: "extends s (make_duplicates_real_before h s)"
  by (simp add: extends_def make_duplicates_real_before_def)

lemma before_output: "output_file (make_duplicates_real_before h s) = output_file s"
  by (simp add: make_duplicates_real_before_def)

lemma after_unchanged:
  "output_file (final_state (make_duplicates_real_after h s)) = output_file s \<and>
   animation_data (final_state (make_duplicates_real_after h s)) = animation_data s \<and>
   action_log (final_state (make_duplicates_real_after h s)) = action_log s"
  by (simp add: make_duplicates_real_after_def final_state_def Let_def split: prod.splits)

lemma extends_after: "extends s (final_state (make_duplicates_real_after h s))"
  by (simp add: extends_def after_unchanged)

lemma extends_x3d: "extends s (final_state (output_frame_x3d h self s))"
  by (simp add: output_frame_x3d_def final_state_def Let_def extends_def file_write_def
      split: sum.splits prod.splits)

lemma extends_gltf: "extends s (final_state (output_frame_gltf h self s))"
  by (simp add: output_frame_gltf_def final_state_def extends_def file_write_def
      split: sum.splits prod.splits)

lemma after_frame_line_output:
  "\<exists>c sz. output_file (after_frame_line h self frame frame_start s) =
     output_file s @ [frame_line h (Fin (real_of_int (frame - frame_start) / 25))
        (if frame_format self = GLTF then ''model/gltf+json'' else ''model/x3d+vrml'') c sz]"
proof -
  define s2 where "s2 =
    (if make_duplicates_real self
     then make_duplicates_real_before h (s\<lparr>scene := frame_set h frame (scene s)\<rparr>)
     else s\<lparr>scene := frame_set h frame (scene s)\<rparr>)"
  have "output_file (after_frame_line h self frame frame_start s) =
     output_file s @ [frame_line h (Fin (real_of_int (frame - frame_start) / 25))
        (if frame_format self = GLTF then ''model/gltf+json'' else ''model/x3d+vrml'')
        (fst (get_current_bounding_box h self (scene s2)))
        (snd (get_current_bounding_box h self (scene s2)))]"
    by (simp add: after_frame_line_def Let_def file_write_def before_output s2_def)
  then show ?thesis by blast
qed

lemma after_frame_line_bindings:
  "animation_data (after_frame_line h self frame frame_start s) = animation_data s \<and>
   action_log (after_frame_line h self frame frame_start s) = action_log s"
  by (simp add: after_frame_line_def Let_def file_write_def make_duplicates_real_before_def)

lemma output_frame_extends_line:
  "extends (after_frame_line h self frame frame_start s)
     (final_state (output_frame h self frame frame_start s))"
proof -
  let ?s3 = "after_frame_line h self frame frame_start s"
  let ?export = "if frame_format self = GLTF then output_frame_gltf h self ?s3
                 else output_frame_x3d h self ?s3"
  have ex: "extends ?s3 (final_state ?export)"
    by (simp add: extends_x3d extends_gltf)
  have unfold: "output_frame h self frame frame_start s =
      (case ?export of Inl e \<Rightarrow> Inl e
       | Inr s4 \<Rightarrow>
           let s5 = file_write (NL @ TAB @ TAB @ ''</frame>'' @ NL) s4
           in if make_duplicates_real self then make_duplicates_real_after h s5 else Inr s5)"
    by (simp add: output_frame_def after_frame_line_def Let_def split: prod.splits)
  show ?thesis
  proof (cases ?export)
    case (Inl e)
    with unfold have "output_frame h self frame frame_start s = Inl e" by simp
    with ex Inl show ?thesis by simp
  next
    case (Inr s4)
    let ?s5 = "file_write (NL @ TAB @ TAB @ ''</frame>'' @ NL) s4"
    from ex Inr have "extends ?s3 s4" by (simp add: final_state_def)
    then have s5: "extends ?s3 ?s5" using extends_write extends_trans by blast
    show ?thesis
    proof (cases "make_duplicates_real self")
      case True
      with unfold Inr have "output_frame h self frame frame_start s = make_duplicates_real_after h ?s5"
        by (simp add: Let_def)
      with s5 extends_after[of ?s5 h] show ?thesis using extends_trans by simp
    next
      case False
      with unfold Inr have "output_frame h self frame frame_start s = Inr ?s5"
        by (simp add: Let_def)
      with s5 show ?thesis by (simp add: final_state_def)
    qed
  qed
qed

lemma output_frame_extends: "extends s (final_state (output_frame h self frame frame_start s))"
proof -
  have "extends s (after_frame_line h self frame frame_start s)"
    using after_frame_line_output[of h self frame frame_start s] after_frame_line_bindings[of h self frame frame_start s]
    by (auto simp: extends_def)
  with output_frame_extends_line show ?thesis using extends_trans by blast
qed


lemma frames_loop_extends:
  assumes "frames_loop (\<lambda>frame. output_frame h self frame fs) skip fe f s = Some r"
  shows "extends s (final_state r)"
proof -
  have "case r of Inl e \<Rightarrow> extends s (snd e) | Inr s' \<Rightarrow> extends s s'"
  proof (rule frames_loop_rule[OF assms, where I = "extends s" and E = "\<lambda>e. extends s (snd e)"])
    fix f s1 s'
    assume "extends s s1" and "output_frame h self f fs s1 = Inr s'"
    with output_frame_extends[of s1 h self f fs] show "extends s s'"
      using extends_trans by (simp add: final_state_def)
  next
    fix f s1 e
    assume "extends s s1" and "output_frame h self f fs s1 = Inl e"
    with output_frame_extends[of s1 h self f fs] show "extends s (snd e)"
      using extends_trans by (cases e) (simp add: final_state_def)
  next
    show "extends s s" by (rule extends_refl)
  qed
  then show ?thesis by (auto simp: final_state_def split: sum.splits prod.splits)
qed

lemma animation_frames_extends:
  assumes "animation_frames (\<lambda>frame. output_frame h self frame fs) skip f fe s = Some r"
  shows "extends s (final_state r)"
proof (cases "frames_loop (\<lambda>frame. output_frame h self frame fs) skip fe f s")
  case None
  with assms show ?thesis by (simp add: animation_frames_def)
next
  case (Some r0)
  note ext0 = frames_loop_extends[OF Some]
  show ?thesis
  proof (cases r0)
    case (Inl e)
    with Some assms have "r = Inl e" by (simp add: animation_frames_def)
    with ext0 Inl show ?thesis by simp
  next
    case (Inr s')
    with Some assms have "r = output_frame h self fe fs s'" by (simp add: animation_frames_def)
    with ext0 Inr output_frame_extends[of s' h self fe fs] show ?thesis
      using extends_trans by (simp add: final_state_def)
  qed
qed

lemma animation_frames_first:
  assumes le: "fs \<le> fe"
    and run: "animation_frames (\<lambda>frame. output_frame h self frame fs) skip fs fe s = Some r"
  shows "extends (after_frame_line h self fs fs s) (final_state r)"
proof (cases "fs < fe")
  case False
  with le have eq: "fe = fs" by simp
  have "frames_loop (\<lambda>frame. output_frame h self frame fs) skip fs fs s = Some (Inr s)"
    by (subst frames_loop.simps) simp
  with run eq have "r = output_frame h self fs fs s" by (simp add: animation_frames_def)
  then show ?thesis by (simp add: output_frame_extends_line)
next
  case True
  note line = output_frame_extends_line[of h self fs fs s]
  show ?thesis
  proof (cases "output_frame h self fs fs s")
    case (Inl e)
    with True have "frames_loop (\<lambda>frame. output_frame h self frame fs) skip fe fs s = Some (Inl e)"
      by (subst frames_loop.simps) simp
    with run have "r = Inl e" by (simp add: animation_frames_def)
    with line Inl show ?thesis by simp
  next
    case (Inr s')
    with True have step: "frames_loop (\<lambda>frame. output_frame h self frame fs) skip fe fs s =
        frames_loop (\<lambda>frame. output_frame h self frame fs) skip fe (fs + (1 + skip)) s'"
      by (subst frames_loop.simps) simp
    from line Inr have l': "extends (after_frame_line h self fs fs s) s'"
      by (simp add: final_state_def)
    have "animation_frames (\<lambda>frame. output_frame h self frame fs) skip (fs + (1 + skip)) fe s' = Some r"
      using run step by (simp add: animation_frames_def)
    from animation_frames_extends[OF this] l' show ?thesis using extends_trans by blast
  qed
qed

lemma animation_frames_total:
  "0 \<le> skip \<Longrightarrow> \<exists>r. animation_frames emit skip fs fe s = Some r"
proof -
  assume "0 \<le> skip"
  from frames_loop_total[OF this, of emit fe fs s] obtain r0 where
    "frames_loop emit skip fe fs s = Some r0" by blast
  then show ?thesis by (cases r0) (simp_all add: animation_frames_def)
qed

lemma output_one_animation_total:
  "0 \<le> frame_skip self \<Longrightarrow> \<exists>r. output_one_animation h self nm fs fe s = Some r"
proof -
  assume "0 \<le> frame_skip self"
  from animation_frames_total[OF this, of "\<lambda>frame. output_frame h self frame fs" fs fe
      "file_write (animation_open_tag nm) s"]
  obtain r0 where "animation_frames (\<lambda>frame. output_frame h self frame fs) (frame_skip self) fs fe
      (file_write (animation_open_tag nm) s) = Some r0" by blast
  then show ?thesis by (cases r0) (simp_all add: output_one_animation_def Let_def)
qed

lemma output_one_animation_frames:
  assumes "output_one_animation h self nm fs fe s = Some r"
  shows "\<exists>r0. animation_frames (\<lambda>frame. output_frame h self frame fs) (frame_skip self) fs fe
             (file_write (animation_open_tag nm) s) = Some r0 \<and>
           extends (final_state r0) (final_state r)"
proof (cases "animation_frames (\<lambda>frame. output_frame h self frame fs) (frame_skip self) fs fe
             (file_write (animation_open_tag nm) s)")
  case None
  with assms show ?thesis by (simp add: output_one_animation_def Let_def)
next
  case (Some r0)
  with assms have "extends (final_state r0) (final_state r)"
    by (cases r0) (auto simp: output_one_animation_def Let_def final_state_def extends_refl extends_write)
  with Some show ?thesis by blast
qed

lemma output_one_animation_extends:
  assumes "output_one_animation h self nm fs fe s = Some r"
  shows "extends (file_write (animation_open_tag nm) s) (final_state r)"
proof -
  from output_one_animation_frames[OF assms] obtain r0 where
    r0: "animation_frames (\<lambda>frame. output_frame h self frame fs) (frame_skip self) fs fe
             (file_write (animation_open_tag nm) s) = Some r0"
    and ext: "extends (final_state r0) (final_state r)" by blast
  from animation_frames_extends[OF r0] ext show ?thesis using extends_trans by blast
qed

lemma extends_output1:
  "extends s s' \<Longrightarrow> output_file s = xs @ [x] \<Longrightarrow> \<exists>rest. output_file s' = xs @ x # rest"
  by (auto simp: extends_def)

lemma extends_output2:
  "extends s s' \<Longrightarrow> output_file s = xs @ [x, y] \<Longrightarrow>
   \<exists>rest. output_file s' = xs @ x # y # rest"
  by (auto simp: extends_def)

text \<open>
  Claim C10. For a name that is not empty, the first thing \<^verbatim>\<open>output_one_animation\<close>
  writes is the tab, \<^verbatim>\<open><animation name="\<close>, the name as it is, \<^verbatim>\<open>">\<close> and a newline:
  no character of the name is escaped or changed, whatever it is, and the text stays in
  the output whether the block ends normally or with an exception. (For \<open>frame_skip \<ge> 0\<close>,
  the range of the property, the function returns.)
\<close>

theorem animation_name_written_verbatim:
  assumes "animation_name \<noteq> []" and "0 \<le> frame_skip self"
  shows "\<exists>r rest. output_one_animation h self animation_name frame_start frame_end s = Some r \<and>
           output_file (final_state r) =
             output_file s @ (TAB @ ''<animation name=\"'' @ animation_name @ ''\">'' @ NL) # rest"
proof -
  from output_one_animation_total[OF assms(2), of h animation_name frame_start frame_end s]
  obtain r where r: "output_one_animation h self animation_name frame_start frame_end s = Some r"
    by blast
  have "output_file (file_write (animation_open_tag animation_name) s) =
      output_file s @ [TAB @ ''<animation name=\"'' @ animation_name @ ''\">'' @ NL]"
    using assms(1) by (simp add: file_write_def animation_open_tag_def)
  from extends_output1[OF output_one_animation_extends[OF r] this] obtain rest where
    "output_file (final_state r) =
       output_file s @ (TAB @ ''<animation name=\"'' @ animation_name @ ''\">'' @ NL) # rest"
    by blast
  with r show ?thesis by blast
qed

theorem animation_name_written_verbatim_witness:
  "''a\"<b'' \<noteq> [] \<and> 0 \<le> frame_skip default_operator \<and>
   (\<exists>r rest. output_one_animation plain_host default_operator ''a\"<b'' 1 10
                (initial_state (one_object_scene ''MESH'')) = Some r \<and>
      output_file (final_state r) =
        output_file (initial_state (one_object_scene ''MESH'')) @
        (TAB @ ''<animation name=\"'' @ ''a\"<b'' @ ''\">'' @ NL) # rest)"
  using animation_name_written_verbatim
    [where animation_name = "''a\"<b''" and self = default_operator and h = plain_host
       and frame_start = 1 and frame_end = 10
       and s = "initial_state (one_object_scene ''MESH'')"]
  by (simp add: default_operator_def)

lemma frame_line_text:
  "frame_line h time mime_type c sz =
     TAB @ TAB @ ''<frame time=\"'' @ format_f h time @
     ''\" mime_type=\"'' @ mime_type @
     ''\" bounding_box_center=\"'' @ format_f h (fst c) @ '' '' @ format_f h (fst (snd c)) @
       '' '' @ format_f h (snd (snd c)) @
     ''\" bounding_box_size=\"'' @ format_f h (fst sz) @ '' '' @ format_f h (fst (snd sz)) @
       '' '' @ format_f h (snd (snd sz)) @ ''\">'' @ NL"
  by (simp add: frame_line_def)

text \<open>
  Claim C8. Each call of \<^verbatim>\<open>output_frame\<close> writes, before anything else, the line
  of the \<^verbatim>\<open>frame\<close> element, and the text of its \<^verbatim>\<open>time\<close> attribute is the \<^verbatim>\<open>%f\<close> format of
  the float \<open>(frame - frame_start) / 25\<close>, whatever the host and the scene are (the frame
  rate of the scene is not read); and for \<open>frame_start \<le> frame_end\<close> the first frame line of
  an animation block, written right after the opening tag, has the \<^verbatim>\<open>%f\<close> format of
  \<open>0\<close> as its time.
\<close>

theorem frame_time_is_offset_over_25:
  "(\<exists>c sz rest. output_file (final_state (output_frame h self frame frame_start s)) =
      output_file s @
      (TAB @ TAB @ ''<frame time=\"'' @
         format_f h (Fin (real_of_int (frame - frame_start) / 25)) @
       ''\" mime_type=\"'' @
         (if frame_format self = GLTF then ''model/gltf+json'' else ''model/x3d+vrml'') @
       ''\" bounding_box_center=\"'' @ format_f h (fst c) @ '' '' @
         format_f h (fst (snd c)) @ '' '' @ format_f h (snd (snd c)) @
       ''\" bounding_box_size=\"'' @ format_f h (fst sz) @ '' '' @
         format_f h (fst (snd sz)) @ '' '' @ format_f h (snd (snd sz)) @ ''\">'' @ NL) # rest) \<and>
   (frame_start \<le> frame_end \<longrightarrow> 0 \<le> frame_skip self \<longrightarrow>
      (\<exists>r c sz rest. output_one_animation h self animation_name frame_start frame_end s = Some r \<and>
         output_file (final_state r) =
           output_file s @ animation_open_tag animation_name #
           (TAB @ TAB @ ''<frame time=\"'' @ format_f h (Fin 0) @
            ''\" mime_type=\"'' @
              (if frame_format self = GLTF then ''model/gltf+json'' else ''model/x3d+vrml'') @
            ''\" bounding_box_center=\"'' @ format_f h (fst c) @ '' '' @
              format_f h (fst (snd c)) @ '' '' @ format_f h (snd (snd c)) @
            ''\" bounding_box_size=\"'' @ format_f h (fst sz) @ '' '' @
              format_f h (fst (snd sz)) @ '' '' @ format_f h (snd (snd sz)) @ ''\">'' @ NL) #
           rest))"
proof (intro conjI impI)
  let ?mime = "if frame_format self = GLTF then ''model/gltf+json'' else ''model/x3d+vrml''"
  from after_frame_line_output[of h self frame frame_start s] obtain c sz where
    "output_file (after_frame_line h self frame frame_start s) =
       output_file s @ [frame_line h (Fin (real_of_int (frame - frame_start) / 25)) ?mime c sz]"
    by blast
  from extends_output1[OF output_frame_extends_line this] obtain rest where
    "output_file (final_state (output_frame h self frame frame_start s)) =
      output_file s @
      frame_line h (Fin (real_of_int (frame - frame_start) / 25)) ?mime c sz # rest"
    by blast
  then have "output_file (final_state (output_frame h self frame frame_start s)) =
      output_file s @
      (TAB @ TAB @ ''<frame time=\"'' @
         format_f h (Fin (real_of_int (frame - frame_start) / 25)) @
       ''\" mime_type=\"'' @ ?mime @
       ''\" bounding_box_center=\"'' @ format_f h (fst c) @ '' '' @
         format_f h (fst (snd c)) @ '' '' @ format_f h (snd (snd c)) @
       ''\" bounding_box_size=\"'' @ format_f h (fst sz) @ '' '' @
         format_f h (fst (snd sz)) @ '' '' @ format_f h (snd (snd sz)) @ ''\">'' @ NL) # rest"
    by (simp only: frame_line_text)
  then show "\<exists>c sz rest. output_file (final_state (output_frame h self frame frame_start s)) =
      output_file s @
      (TAB @ TAB @ ''<frame time=\"'' @
         format_f h (Fin (real_of_int (frame - frame_start) / 25)) @
       ''\" mime_type=\"'' @ ?mime @
       ''\" bounding_box_center=\"'' @ format_f h (fst c) @ '' '' @
         format_f h (fst (snd c)) @ '' '' @ format_f h (snd (snd c)) @
       ''\" bounding_box_size=\"'' @ format_f h (fst sz) @ '' '' @
         format_f h (fst (snd sz)) @ '' '' @ format_f h (snd (snd sz)) @ ''\">'' @ NL) # rest"
    by (intro exI)
next
  let ?mime = "if frame_format self = GLTF then ''model/gltf+json'' else ''model/x3d+vrml''"
  let ?s1 = "file_write (animation_open_tag animation_name) s"
  assume le: "frame_start \<le> frame_end" and skip: "0 \<le> frame_skip self"
  from output_one_animation_total[OF skip, of h animation_name frame_start frame_end s]
  obtain r where r: "output_one_animation h self animation_name frame_start frame_end s = Some r"
    by blast
  from output_one_animation_frames[OF r] obtain r0 where
    r0: "animation_frames (\<lambda>frame. output_frame h self frame frame_start) (frame_skip self)
           frame_start frame_end ?s1 = Some r0"
    and ext: "extends (final_state r0) (final_state r)" by blast
  from animation_frames_first[OF le r0] ext
  have e: "extends (after_frame_line h self frame_start frame_start ?s1) (final_state r)"
    using extends_trans by blast
  from after_frame_line_output[of h self frame_start frame_start ?s1] obtain c sz where
    "output_file (after_frame_line h self frame_start frame_start ?s1) =
       output_file ?s1 @
       [frame_line h (Fin (real_of_int (frame_start - frame_start) / 25)) ?mime c sz]"
    by blast
  then have "output_file (after_frame_line h self frame_start frame_start ?s1) =
       output_file s @ [animation_open_tag animation_name, frame_line h (Fin 0) ?mime c sz]"
    by (simp add: file_write_def)
  from extends_output2[OF e this] obtain rest where
    "output_file (final_state r) =
       output_file s @ animation_open_tag animation_name #
       frame_line h (Fin 0) ?mime c sz # rest"
    by blast
  then have "output_file (final_state r) =
       output_file s @ animation_open_tag animation_name #
       (TAB @ TAB @ ''<frame time=\"'' @ format_f h (Fin 0) @
        ''\" mime_type=\"'' @ ?mime @
        ''\" bounding_box_center=\"'' @ format_f h (fst c) @ '' '' @
          format_f h (fst (snd c)) @ '' '' @ format_f h (snd (snd c)) @
        ''\" bounding_box_size=\"'' @ format_f h (fst sz) @ '' '' @
          format_f h (fst (snd sz)) @ '' '' @ format_f h (snd (snd sz)) @ ''\">'' @ NL) # rest"
    by (simp only: frame_line_text)
  with r
  have "output_one_animation h self animation_name frame_start frame_end s = Some r \<and>
         output_file (final_state r) =
           output_file s @ animation_open_tag animation_name #
           (TAB @ TAB @ ''<frame time=\"'' @ format_f h (Fin 0) @
            ''\" mime_type=\"'' @ ?mime @
            ''\" bounding_box_center=\"'' @ format_f h (fst c) @ '' '' @
              format_f h (fst (snd c)) @ '' '' @ format_f h (snd (snd c)) @
            ''\" bounding_box_size=\"'' @ format_f h (fst sz) @ '' '' @
              format_f h (fst (snd sz)) @ '' '' @ format_f h (snd (snd sz)) @ ''\">'' @ NL) #
           rest"
    by (rule conjI)
  then show "\<exists>r c sz rest. output_one_animation h self animation_name frame_start frame_end s = Some r \<and>
         output_file (final_state r) =
           output_file s @ animation_open_tag animation_name #
           (TAB @ TAB @ ''<frame time=\"'' @ format_f h (Fin 0) @
            ''\" mime_type=\"'' @ ?mime @
            ''\" bounding_box_center=\"'' @ format_f h (fst c) @ '' '' @
              format_f h (fst (snd c)) @ '' '' @ format_f h (snd (snd c)) @
            ''\" bounding_box_size=\"'' @ format_f h (fst sz) @ '' '' @
              format_f h (fst (snd sz)) @ '' '' @ format_f h (snd (snd sz)) @ ''\">'' @ NL) #
           rest"
    by (intro exI)
qed

theorem frame_time_is_offset_over_25_witness:
  "(1::int) \<le> 10 \<and> 0 \<le> frame_skip default_operator \<and>
   (\<exists>r c sz rest. output_one_animation plain_host default_operator ''animation'' 1 10
                (initial_state (one_object_scene ''MESH'')) = Some r \<and>
      output_file (final_state r) =
        output_file (initial_state (one_object_scene ''MESH'')) @
        animation_open_tag ''animation'' #
        (TAB @ TAB @ ''<frame time=\"'' @ format_f plain_host (Fin 0) @
         ''\" mime_type=\"'' @
           (if frame_format default_operator = GLTF then ''model/gltf+json''
            else ''model/x3d+vrml'') @
         ''\" bounding_box_center=\"'' @ format_f plain_host (fst c) @ '' '' @
           format_f plain_host (fst (snd c)) @ '' '' @ format_f plain_host (snd (snd c)) @
         ''\" bounding_box_size=\"'' @ format_f plain_host (fst sz) @ '' '' @
           format_f plain_host (fst (snd sz)) @ '' '' @ format_f plain_host (snd (snd sz)) @
         ''\">'' @ NL) # rest)"
  using frame_time_is_offset_over_25
    [where animation_name = "''animation''" and self = default_operator and h = plain_host
       and frame_start = 1 and frame_end = 10
       and s = "initial_state (one_object_scene ''MESH'')", THEN conjunct2]
  by (simp add: default_operator_def)

section \<open>Making duplicates real\<close>

lemma select_fold_plain:
  assumes "select_set h = select_set plain_host"
  shows "scene_objects (fst (fold (select_step h new old) xs (sc, n))) = scene_objects sc \<and>
         (\<forall>ob. selected (obj (fst (fold (select_step h new old) xs (sc, n))) ob) =
            (if ob \<in> set xs then ob \<in> set new \<and> ob \<notin> set old else selected (obj sc ob))) \<and>
         snd (fold (select_step h new old) xs (sc, n)) =
            n + length (filter (\<lambda>ob. ob \<in> set new \<and> ob \<notin> set old) xs)"
proof (induction xs arbitrary: sc n)
  case Nil
  show ?case by simp
next
  case (Cons x xs)
  let ?sc1 = "sc\<lparr>obj := (obj sc)(x := (obj sc x)\<lparr>selected := (x \<in> set new \<and> x \<notin> set old)\<rparr>)\<rparr>"
  let ?n1 = "if x \<in> set new \<and> x \<notin> set old then n + 1 else n"
  have step: "select_step h new old x (sc, n) = (?sc1, ?n1)"
    by (simp add: select_step_def assms plain_host_def Let_def)
  have "fold (select_step h new old) (x # xs) (sc, n) = fold (select_step h new old) xs (?sc1, ?n1)"
    by (simp add: step)
  with Cons.IH[of ?sc1 ?n1] show ?case by auto
qed

lemma after_plain:
  assumes sel: "select_set h = select_set plain_host"
    and del: "object_delete h = object_delete plain_host"
    and run: "make_duplicates_real_after h s = Inr s'"
  shows "scene_objects (scene s') =
         filter (\<lambda>ob. ob \<in> set (old_objects s)) (scene_objects (scene s))"
proof -
  let ?new = "scene_objects (scene s)"
  let ?old = "old_objects s"
  let ?dup = "filter (\<lambda>item. item \<notin> set ?old) ?new"
  let ?f = "fold (select_step h ?new ?old) ?new (scene s, 0)"
  from run have ge: "\<not> length ?new < old_objects_len s"
    by (auto simp: make_duplicates_real_after_def Let_def)
  show ?thesis
  proof (cases "length ?dup \<noteq> 0")
    case False
    then have all_old: "\<forall>ob\<in>set ?new. ob \<in> set ?old"
      by (auto simp: filter_empty_conv)
    from run ge False have "s' = s"
      by (auto simp: make_duplicates_real_after_def Let_def split: if_splits)
    with all_old show ?thesis by (simp add: filter_id_conv)
  next
    case True
    note f = select_fold_plain[OF sel, of ?new ?old ?new "scene s" 0]
    obtain sc' cnt where fc: "?f = (sc', cnt)" by (cases ?f) auto
    from run ge True fc have s': "s' = s\<lparr>scene := object_delete h sc'\<rparr>"
      by (auto simp: make_duplicates_real_after_def Let_def split: if_splits)
    from f fc have objs: "scene_objects sc' = ?new"
      and flags: "\<forall>ob. selected (obj sc' ob) =
            (if ob \<in> set ?new then ob \<in> set ?new \<and> ob \<notin> set ?old else selected (obj (scene s) ob))"
      by simp_all
    have "scene_objects (object_delete h sc') = filter (\<lambda>ob. \<not> selected (obj sc' ob)) ?new"
      by (simp add: del plain_host_def objs)
    also have "\<dots> = filter (\<lambda>ob. ob \<in> set ?old) ?new"
      by (rule filter_cong) (simp_all add: flags)
    finally show ?thesis by (simp add: s')
  qed
qed

text \<open>
  Claim C5, as amended. The post-hook raises an exception when the scene has fewer
  objects than at the pre-hook, and, when there are new objects, when the number of
  objects it finds selected after selecting the new ones differs from the number of new
  objects; when it returns normally, the scene has as many objects as at the pre-hook
  (so a final count that differs is an exception); and on a host whose \<^verbatim>\<open>select_set\<close> and
  \<^verbatim>\<open>delete\<close> do what \<open>plain_host\<close> does, the objects it leaves are exactly those of the scene
  that were there at the pre-hook, in their order: exactly the new ones are deleted.
  Nothing is said about the selection.
\<close>

theorem make_duplicates_real_after_checks:
  "(length (scene_objects (scene s)) < old_objects_len s \<longrightarrow>
      make_duplicates_real_after h s =
        Inl (Exception ''Error: we have less objecs after running duplicates_make_real, submit a bug'', s)) \<and>
   (\<not> length (scene_objects (scene s)) < old_objects_len s \<longrightarrow>
    filter (\<lambda>item. item \<notin> set (old_objects s)) (scene_objects (scene s)) \<noteq> [] \<longrightarrow>
    snd (fold (select_step h (scene_objects (scene s)) (old_objects s))
           (scene_objects (scene s)) (scene s, 0)) \<noteq>
      length (filter (\<lambda>item. item \<notin> set (old_objects s)) (scene_objects (scene s))) \<longrightarrow>
      (\<exists>s'. make_duplicates_real_after h s =
         Inl (Exception ''Error: we did not select as many as expected, submit a bug'', s'))) \<and>
   (\<forall>s'. make_duplicates_real_after h s = Inr s' \<longrightarrow>
      length (scene_objects (scene s')) = old_objects_len s) \<and>
   (select_set h = select_set plain_host \<longrightarrow> object_delete h = object_delete plain_host \<longrightarrow>
      (\<forall>s'. make_duplicates_real_after h s = Inr s' \<longrightarrow>
         scene_objects (scene s') =
           filter (\<lambda>ob. ob \<in> set (old_objects s)) (scene_objects (scene s))))"
proof (intro conjI impI allI)
  assume "length (scene_objects (scene s)) < old_objects_len s"
  then show "make_duplicates_real_after h s =
      Inl (Exception ''Error: we have less objecs after running duplicates_make_real, submit a bug'', s)"
    by (simp add: make_duplicates_real_after_def Let_def)
next
  assume "\<not> length (scene_objects (scene s)) < old_objects_len s"
    and "filter (\<lambda>item. item \<notin> set (old_objects s)) (scene_objects (scene s)) \<noteq> []"
    and "snd (fold (select_step h (scene_objects (scene s)) (old_objects s))
           (scene_objects (scene s)) (scene s, 0)) \<noteq>
      length (filter (\<lambda>item. item \<notin> set (old_objects s)) (scene_objects (scene s)))"
  then show "\<exists>s'. make_duplicates_real_after h s =
         Inl (Exception ''Error: we did not select as many as expected, submit a bug'', s')"
    by (cases "fold (select_step h (scene_objects (scene s)) (old_objects s))
           (scene_objects (scene s)) (scene s, 0)")
       (simp add: make_duplicates_real_after_def Let_def)
next
  fix s'
  assume "make_duplicates_real_after h s = Inr s'"
  then show "length (scene_objects (scene s')) = old_objects_len s"
    by (auto simp: make_duplicates_real_after_def Let_def split: if_splits prod.splits sum.splits)
next
  fix s'
  assume "select_set h = select_set plain_host" "object_delete h = object_delete plain_host"
    "make_duplicates_real_after h s = Inr s'"
  then show "scene_objects (scene s') =
           filter (\<lambda>ob. ob \<in> set (old_objects s)) (scene_objects (scene s))"
    by (rule after_plain)
qed

theorem make_duplicates_real_after_checks_witness:
  "make_duplicates_real_after plain_host shrunk_state =
     Inl (Exception ''Error: we have less objecs after running duplicates_make_real, submit a bug'',
          shrunk_state) \<and>
   (\<exists>s'. make_duplicates_real_after deaf_host duplicated_state =
      Inl (Exception ''Error: we did not select as many as expected, submit a bug'', s')) \<and>
   (\<exists>s'. make_duplicates_real_after plain_host duplicated_state = Inr s' \<and>
      length (scene_objects (scene s')) = old_objects_len duplicated_state \<and>
      scene_objects (scene s') = [0])"
proof (intro conjI)
  have "length (scene_objects (scene shrunk_state)) < old_objects_len shrunk_state"
    by (simp add: shrunk_state_def initial_state_def one_object_scene_def)
  then show "make_duplicates_real_after plain_host shrunk_state =
     Inl (Exception ''Error: we have less objecs after running duplicates_make_real, submit a bug'',
          shrunk_state)"
    by (rule make_duplicates_real_after_checks
        [of shrunk_state plain_host, THEN conjunct1, THEN mp])
next
  have a: "\<not> length (scene_objects (scene duplicated_state)) < old_objects_len duplicated_state"
    by (simp add: duplicated_state_def initial_state_def two_object_scene_def)
  have b: "filter (\<lambda>item. item \<notin> set (old_objects duplicated_state))
             (scene_objects (scene duplicated_state)) \<noteq> []"
    by (simp add: duplicated_state_def initial_state_def two_object_scene_def)
  have c: "snd (fold (select_step deaf_host (scene_objects (scene duplicated_state))
                  (old_objects duplicated_state))
           (scene_objects (scene duplicated_state)) (scene duplicated_state, 0)) \<noteq>
      length (filter (\<lambda>item. item \<notin> set (old_objects duplicated_state))
                (scene_objects (scene duplicated_state)))"
    by (simp add: duplicated_state_def initial_state_def two_object_scene_def select_step_def
        deaf_host_def plain_host_def cube_object_def Let_def)
  from make_duplicates_real_after_checks
      [of duplicated_state deaf_host, THEN conjunct2, THEN conjunct1, THEN mp, THEN mp, THEN mp,
       OF a b c]
  show "\<exists>s'. make_duplicates_real_after deaf_host duplicated_state =
      Inl (Exception ''Error: we did not select as many as expected, submit a bug'', s')" .
next
  have "\<not> isl (make_duplicates_real_after plain_host duplicated_state)"
    by (simp add: make_duplicates_real_after_def duplicated_state_def initial_state_def
        two_object_scene_def select_step_def plain_host_def cube_object_def Let_def)
  then obtain s' where run: "make_duplicates_real_after plain_host duplicated_state = Inr s'"
    by (cases "make_duplicates_real_after plain_host duplicated_state") auto
  note checks = make_duplicates_real_after_checks [of duplicated_state plain_host]
  from checks run have len: "length (scene_objects (scene s')) = old_objects_len duplicated_state"
    by blast
  from checks run have "scene_objects (scene s') =
      filter (\<lambda>ob. ob \<in> set (old_objects duplicated_state))
        (scene_objects (scene duplicated_state))"
    by blast
  then have "scene_objects (scene s') = [0]"
    by (simp add: duplicated_state_def initial_state_def two_object_scene_def)
  with run len
  show "\<exists>s'. make_duplicates_real_after plain_host duplicated_state = Inr s' \<and>
      length (scene_objects (scene s')) = old_objects_len duplicated_state \<and>
      scene_objects (scene s') = [0]" by blast
qed

text \<open>
  Claim C5 as stated fails for the selection: the pre-hook selects every object and
  nothing restores the selection it found. On a scene with one unselected mesh and no
  duplicates, the two hooks run without exception and leave the mesh selected.
\<close>

theorem selection_not_restored_counterexample:
  "\<not> isl (make_duplicates_real_after plain_host
            (make_duplicates_real_before plain_host (initial_state (one_object_scene ''MESH'')))) \<and>
   \<not> selected (obj (scene (initial_state (one_object_scene ''MESH''))) 0) \<and>
   selected (obj (scene (final_state (make_duplicates_real_after plain_host
            (make_duplicates_real_before plain_host (initial_state (one_object_scene ''MESH'')))))) 0)"
  by (simp add: make_duplicates_real_after_def make_duplicates_real_before_def Let_def
      plain_host_def initial_state_def one_object_scene_def cube_object_def final_state_def)

section \<open>The whole export\<close>

text \<open>
  Claim C7. When \<^verbatim>\<open>actions_object\<close> is set and names an object of the scene, and no action
  is used by that object or marked to persist, the run ends with the exception
  \<^verbatim>\<open>No action found on object "NAME"\<close>, and the output file holds the XML declaration and
  the opening \<^verbatim>\<open><animations>\<close> tag only: no animation block and no closing tag.
\<close>

theorem no_action_found_error:
  assumes "actions_object self \<noteq> []"
    and "lookup_object (scene s0) (actions_object self) = Some ob"
    and "actions_to_export h (scene s0) ob = []"
  shows "\<exists>s'. execute h self s0 =
             Some (Inl (Exception (''No action found on object \"'' @ actions_object self @ ''\"''), s')) \<and>
           output_file s' = [''<?xml version=\"1.0\"?>'' @ NL, ''<animations>'' @ NL]"
  using assms by (simp add: execute_def Let_def file_write_def)

theorem no_action_found_error_witness:
  "actions_object actions_operator \<noteq> [] \<and>
   lookup_object (scene (initial_state (one_object_scene ''ARMATURE'')))
     (actions_object actions_operator) = Some 0 \<and>
   actions_to_export plain_host (scene (initial_state (one_object_scene ''ARMATURE''))) 0 = [] \<and>
   (\<exists>s'. execute plain_host actions_operator (initial_state (one_object_scene ''ARMATURE'')) =
      Some (Inl (Exception (''No action found on object \"'' @ actions_object actions_operator @ ''\"''),
                 s')) \<and>
      output_file s' = [''<?xml version=\"1.0\"?>'' @ NL, ''<animations>'' @ NL])"
proof -
  have a: "actions_object actions_operator \<noteq> []"
    by (simp add: actions_operator_def default_operator_def)
  have b: "lookup_object (scene (initial_state (one_object_scene ''ARMATURE'')))
     (actions_object actions_operator) = Some 0"
    by (simp add: lookup_object_def initial_state_def one_object_scene_def cube_object_def
        actions_operator_def default_operator_def)
  have c: "actions_to_export plain_host (scene (initial_state (one_object_scene ''ARMATURE''))) 0 = []"
    by (simp add: actions_to_export_def initial_state_def one_object_scene_def)
  from a b c no_action_found_error [OF a b c] show ?thesis by blast
qed

lemma set_action_ok:
  "animation_data s ob = Some b \<Longrightarrow>
   set_action ob a s = Inr (s\<lparr>animation_data := (animation_data s)(ob \<mapsto> a),
                              action_log := action_log s @ [a]\<rparr>)"
  by (simp add: set_action_def)

lemma export_actions_total:
  "0 \<le> frame_skip self \<Longrightarrow> \<exists>r. export_actions h self ob acts s = Some r"
proof (induction acts arbitrary: s)
  case Nil
  then show ?case by simp
next
  case (Cons a acts)
  obtain act_start act_end where fr: "frame_range a = (act_start, act_end)"
    by (cases "frame_range a") auto
  show ?case
  proof (cases "set_action ob (Some a) s")
    case (Inl e)
    with fr show ?thesis by simp
  next
    case (Inr s1)
    from output_one_animation_total[OF Cons.prems, of h "action_name a"
        "py_int act_start" "py_int act_end" s1]
    obtain r1 where r1: "output_one_animation h self (action_name a)
        (py_int act_start) (py_int act_end) s1 = Some r1" by blast
    show ?thesis
    proof (cases r1)
      case (Inl e)
      with fr Inr r1 show ?thesis by simp
    next
      case (Inr s2)
      from Cons.IH[OF Cons.prems, of s2] obtain r where "export_actions h self ob acts s2 = Some r"
        by blast
      with fr \<open>set_action ob (Some a) s = Inr s1\<close> r1 Inr show ?thesis by simp
    qed
  qed
qed

lemma export_actions_log:
  assumes "export_actions h self ob acts s = Some r" and "animation_data s ob \<noteq> None"
  shows "animation_data (final_state r) ob \<noteq> None \<and>
         (\<exists>k\<le>length acts. (acts \<noteq> [] \<longrightarrow> 1 \<le> k) \<and>
            action_log (final_state r) = action_log s @ map Some (take k acts))"
  using assms
proof (induction acts arbitrary: s)
  case Nil
  then have "r = Inr s" by simp
  with Nil show ?case by (simp add: final_state_def)
next
  case (Cons a acts)
  obtain act_start act_end where fr: "frame_range a = (act_start, act_end)"
    by (cases "frame_range a") auto
  from Cons.prems(2) obtain b where b: "animation_data s ob = Some b" by auto
  let ?s1 = "s\<lparr>animation_data := (animation_data s)(ob \<mapsto> Some a),
                 action_log := action_log s @ [Some a]\<rparr>"
  have sa: "set_action ob (Some a) s = Inr ?s1" by (rule set_action_ok[OF b])
  show ?case
  proof (cases "output_one_animation h self (action_name a) (py_int act_start) (py_int act_end) ?s1")
    case None
    with Cons.prems(1) fr sa show ?thesis by simp
  next
    case (Some r1)
    from output_one_animation_extends[OF Some] extends_write[of ?s1]
    have ext: "extends ?s1 (final_state r1)" using extends_trans by blast
    then have data1: "animation_data (final_state r1) ob = Some (Some a)"
      and log1: "action_log (final_state r1) = action_log s @ [Some a]"
      by (simp_all add: extends_def)
    show ?thesis
    proof (cases r1)
      case (Inl e)
      with Cons.prems(1) fr sa Some have "r = Inl e" by simp
      with Inl data1 log1 show ?thesis
        by (intro conjI exI[of _ 1]) simp_all
    next
      case (Inr s2)
      with Cons.prems(1) fr sa Some have run: "export_actions h self ob acts s2 = Some r" by simp
      from Inr data1 log1 have d2: "animation_data s2 ob \<noteq> None"
        and l2: "action_log s2 = action_log s @ [Some a]"
        by (simp_all add: final_state_def)
      from Cons.IH[OF run d2] obtain k where
        k: "k \<le> length acts" "action_log (final_state r) = action_log s2 @ map Some (take k acts)"
        and d: "animation_data (final_state r) ob \<noteq> None" by blast
      from k l2 d show ?thesis
        by (intro conjI exI[of _ "Suc k"]) simp_all
    qed
  qed
qed

lemma restore_action_result:
  assumes "animation_data (final_state r) ob \<noteq> None"
  shows "animation_data (final_state (restore_action ob original r)) ob = Some original \<and>
         action_log (final_state (restore_action ob original r)) =
           action_log (final_state r) @ [original] \<and>
         (isl (restore_action ob original r) \<longleftrightarrow> isl r)"
proof -
  from assms obtain b where b: "animation_data (final_state r) ob = Some b" by auto
  show ?thesis
  proof (cases r)
    case (Inl es)
    obtain e s where es: "es = (e, s)" by (cases es) auto
    with Inl b have "animation_data s ob = Some b" by (simp add: final_state_def)
    from set_action_ok[OF this, of original] Inl es show ?thesis
      by (simp add: restore_action_def final_state_def)
  next
    case (Inr s)
    with b have "animation_data s ob = Some b" by (simp add: final_state_def)
    from set_action_ok[OF this, of original] Inr show ?thesis
      by (simp add: restore_action_def final_state_def)
  qed
qed

text \<open>
  Claim C6. In actions mode with at least one action to export (the designated object
  exists and has animation data, \<open>frame_skip \<ge> 0\<close>), the run ends, normally or with an
  exception, in a state where the object is bound to its original action again; the
  assignments to \<^verbatim>\<open>animation_data.action\<close> are one for each action pass that was started
  (at least one, in the order of discovery) followed by exactly one assignment of the
  original action.
\<close>

theorem original_action_restored_once:
  assumes "actions_object self \<noteq> []"
    and "lookup_object (scene s0) (actions_object self) = Some ob"
    and "actions_to_export h (scene s0) ob \<noteq> []"
    and "animation_data s0 ob = Some original_action"
    and "0 \<le> frame_skip self"
  shows "\<exists>r k. execute h self s0 = Some r \<and>
           animation_data (final_state r) ob = Some original_action \<and>
           1 \<le> k \<and> k \<le> length (actions_to_export h (scene s0) ob) \<and>
           action_log (final_state r) =
             action_log s0 @ map Some (take k (actions_to_export h (scene s0) ob)) @
             [original_action]"
proof -
  let ?s = "file_write (''<animations>'' @ NL)
              (file_write (''<?xml version=\"1.0\"?>'' @ NL) (s0\<lparr>output_file := []\<rparr>))"
  let ?acts = "actions_to_export h (scene s0) ob"
  have sc: "scene ?s = scene s0" and ad: "animation_data ?s = animation_data s0"
    and al: "action_log ?s = action_log s0"
    by (simp_all add: file_write_def)
  from export_actions_total[OF assms(5), of h ob ?acts ?s] obtain r1 where
    r1: "export_actions h self ob ?acts ?s = Some r1" by blast
  have "animation_data ?s ob \<noteq> None" using assms(4) ad by simp
  from export_actions_log[OF r1 this] assms(3) obtain k where
    d1: "animation_data (final_state r1) ob \<noteq> None"
    and k: "k \<le> length ?acts" "1 \<le> k"
    and l1: "action_log (final_state r1) = action_log s0 @ map Some (take k ?acts)"
    using al by auto
  let ?r2 = "restore_action ob original_action r1"
  note res = restore_action_result[OF d1, of original_action]
  have ex: "execute h self s0 =
      (case ?r2 of Inl e \<Rightarrow> Some (Inl e)
       | Inr s' \<Rightarrow> Some (Inr (file_write (''</animations>'' @ NL) s')))"
    using assms(1-4) r1 sc ad by (simp add: execute_def Let_def)
  show ?thesis
  proof (cases ?r2)
    case (Inl e)
    with ex have "execute h self s0 = Some ?r2" by simp
    with res l1 k show ?thesis by auto
  next
    case (Inr s')
    with ex have e: "execute h self s0 = Some (Inr (file_write (''</animations>'' @ NL) s'))"
      by simp
    from res Inr have "animation_data s' ob = Some original_action"
      and "action_log s' = action_log (final_state r1) @ [original_action]"
      by (simp_all add: final_state_def)
    with e l1 k show ?thesis
      by (intro exI[of _ "Inr (file_write (''</animations>'' @ NL) s')"] exI[of _ k])
         (simp add: final_state_def file_write_def)
  qed
qed

theorem original_action_restored_once_witness:
  "actions_object actions_operator \<noteq> [] \<and>
   lookup_object (scene armature_state) (actions_object actions_operator) = Some 0 \<and>
   actions_to_export failing_host (scene armature_state) 0 \<noteq> [] \<and>
   animation_data armature_state 0 = Some None \<and>
   0 \<le> frame_skip actions_operator \<and>
   (\<exists>e s'. execute failing_host actions_operator armature_state = Some (Inl (e, s'))) \<and>
   (\<exists>r k. execute failing_host actions_operator armature_state = Some r \<and>
      animation_data (final_state r) 0 = Some None \<and>
      1 \<le> k \<and> k \<le> length (actions_to_export failing_host (scene armature_state) 0) \<and>
      action_log (final_state r) =
        action_log armature_state @
        map Some (take k (actions_to_export failing_host (scene armature_state) 0)) @ [None])"
proof -
  have a: "actions_object actions_operator \<noteq> []"
    by (simp add: actions_operator_def default_operator_def)
  have b: "lookup_object (scene armature_state) (actions_object actions_operator) = Some 0"
    by (simp add: lookup_object_def armature_state_def armature_scene_def initial_state_def
        one_object_scene_def cube_object_def actions_operator_def default_operator_def)
  have c': "actions_to_export failing_host (scene armature_state) 0 = [walk]"
    by (simp add: actions_to_export_def armature_state_def armature_scene_def initial_state_def
        one_object_scene_def walk_def)
  then have c: "actions_to_export failing_host (scene armature_state) 0 \<noteq> []" by simp
  have d: "animation_data armature_state 0 = Some None"
    by (simp add: armature_state_def)
  have e: "0 \<le> frame_skip actions_operator"
    by (simp add: actions_operator_def default_operator_def)
  have "\<exists>s'. execute failing_host actions_operator armature_state =
          Some (Inl (ExporterError ''export failed'', s'))"
    apply (simp add: execute_def Let_def a b c' d file_write_def)
    apply (simp add: walk_def py_int_def set_action_def armature_state_def
        output_one_animation_def animation_frames_def frames_loop.simps output_frame_def Let_def
        failing_host_def plain_host_def actions_operator_def default_operator_def
        output_frame_gltf_def file_write_def restore_action_def split: prod.splits)
    done
  then have f: "\<exists>e s'. execute failing_host actions_operator armature_state = Some (Inl (e, s'))"
    by blast
  from a b c d e f original_action_restored_once [OF a b c d e] show ?thesis by blast
qed

end
